theory Spec2Isabelle
  imports Complex_Main "HOL-Library.Multiset"
begin

section \<open>JavaScript values\<close>

text \<open>
  The service (\<^verbatim>\<open>src/index.js\<close>) is an Express application over a Prisma client.
  A request body is what \<^verbatim>\<open>express.json()\<close> parsed: a JSON object, read by key.
  A key that is missing reads as \<^verbatim>\<open>undefined\<close>, which is \<open>None\<close> here (JSON cannot
  carry \<^verbatim>\<open>undefined\<close> itself). A number of the body is the exact rational its JSON text
  denotes. A string is a list of 8-bit characters, read as the code points U+0000 to
  U+00FF.
\<close>

datatype json =
    JNull
  | JBool bool
  | JNum rat
  | JStr string
  | JArr "json list"
  | JObj "(string \<times> json) list"

type_synonym jsval = "json option"

type_synonym body = "string \<rightharpoonup> json"

datatype js_type = TUndefined | TObject | TBoolean | TNumber | TString

fun typeof :: "jsval \<Rightarrow> js_type" where
  "typeof None = TUndefined"
| "typeof (Some JNull) = TObject"
| "typeof (Some (JBool b)) = TBoolean"
| "typeof (Some (JNum q)) = TNumber"
| "typeof (Some (JStr s)) = TString"
| "typeof (Some (JArr xs)) = TObject"
| "typeof (Some (JObj kvs)) = TObject"

text \<open>\<^verbatim>\<open>!v\<close>: the values that convert to false.\<close>

fun falsy :: "jsval \<Rightarrow> bool" where
  "falsy None = True"
| "falsy (Some JNull) = True"
| "falsy (Some (JBool b)) = (\<not> b)"
| "falsy (Some (JNum q)) = (q = 0)"
| "falsy (Some (JStr s)) = (s = [])"
| "falsy (Some (JArr xs)) = False"
| "falsy (Some (JObj kvs)) = False"

text \<open>\<^verbatim>\<open>Number.isInteger\<close> on a finite number.\<close>

definition isInteger :: "rat \<Rightarrow> bool" where
  "isInteger q = (of_int \<lfloor>q\<rfloor> = q)"

subsection \<open>Strings\<close>

text \<open>
  White space as \<^verbatim>\<open>String.prototype.trim\<close>, the class \<^verbatim>\<open>\s\<close> and \<^verbatim>\<open>parseInt\<close>
  read it (WhiteSpace and LineTerminator of ECMAScript), within U+0000 to U+00FF:
  tab, line feed, vertical tab, form feed, carriage return, space, no-break space.
\<close>

definition is_space :: "char \<Rightarrow> bool" where
  "is_space c = (c \<in> set [CHR 0x09, CHR 0x0A, CHR 0x0B, CHR 0x0C, CHR 0x0D, CHR 0x20, CHR 0xA0])"

definition trim :: "string \<Rightarrow> string" where
  "trim s = rev (dropWhile is_space (rev (dropWhile is_space s)))"

text \<open>
  \<^verbatim>\<open>toLowerCase\<close> within U+0000 to U+00FF: A to Z, and U+00C0 to U+00DE but for the
  multiplication sign U+00D7, move up by 32; every other character stays.
\<close>

definition lower_char :: "char \<Rightarrow> char" where
  "lower_char c =
     (let n = (of_char c :: nat)
      in if (65 \<le> n \<and> n \<le> 90) \<or> (192 \<le> n \<and> n \<le> 222 \<and> n \<noteq> 215)
         then char_of (n + 32) else c)"

definition toLowerCase :: "string \<Rightarrow> string" where
  "toLowerCase s = map lower_char s"

subsection \<open>Regular expressions\<close>

text \<open>
  The fragment of regular expressions the source uses: a pattern anchored by \<^verbatim>\<open>^\<close> and
  \<^verbatim>\<open>$\<close> (no flags, so they are the two ends of the input), made of single characters
  and negated classes, each once or under \<^verbatim>\<open>+\<close>.
\<close>

datatype class_item = Space | Chr char

datatype atom = Lit char | NoneOf "class_item list"

datatype piece = One atom | Plus atom

fun in_item :: "class_item \<Rightarrow> char \<Rightarrow> bool" where
  "in_item Space c = is_space c"
| "in_item (Chr d) c = (c = d)"

fun atom_ok :: "atom \<Rightarrow> char \<Rightarrow> bool" where
  "atom_ok (Lit d) c = (c = d)"
| "atom_ok (NoneOf items) c = (\<not> list_ex (\<lambda>i. in_item i c) items)"

text \<open>
  Backtracking match of the whole input: under \<^verbatim>\<open>+\<close> the atom takes one character and
  then either goes on or hands over to the rest of the pattern.
\<close>

fun re_match :: "piece list \<Rightarrow> string \<Rightarrow> bool" where
  "re_match [] s = (s = [])"
| "re_match (One a # ps) [] = False"
| "re_match (One a # ps) (c # cs) = (atom_ok a c \<and> re_match ps cs)"
| "re_match (Plus a # ps) [] = False"
| "re_match (Plus a # ps) (c # cs) =
     (atom_ok a c \<and> (re_match (Plus a # ps) cs \<or> re_match ps cs))"

text \<open>\<^verbatim>\<open>/^[^\s@]+@[^\s@]+\.[^\s@]+$/\<close>, as written in \<^verbatim>\<open>validateUserInput\<close>.\<close>

definition email_re :: "piece list" where
  "email_re =
     [Plus (NoneOf [Space, Chr CHR ''@'']), One (Lit CHR ''@''),
      Plus (NoneOf [Space, Chr CHR ''@'']), One (Lit CHR ''.''),
      Plus (NoneOf [Space, Chr CHR ''@''])]"

text \<open>The same pattern, written a second time in the PATCH handler.\<close>

definition patch_email_re :: "piece list" where
  "patch_email_re =
     [Plus (NoneOf [Space, Chr CHR ''@'']), One (Lit CHR ''@''),
      Plus (NoneOf [Space, Chr CHR ''@'']), One (Lit CHR ''.''),
      Plus (NoneOf [Space, Chr CHR ''@''])]"

subsection \<open>Numbers read from strings\<close>

text \<open>
  The value \<^verbatim>\<open>parseInt\<close> returns is an IEEE double: \<^verbatim>\<open>NaN\<close>, an integer that a double
  can hold, or an infinity.
\<close>

datatype number = NaN | Finite int | PosInfinity | NegInfinity

text \<open>The number of binary digits of a positive integer.\<close>

function bits :: "int \<Rightarrow> nat" where
  "bits n = (if n \<le> 0 then 0 else Suc (bits (n div 2)))"
  by pat_completeness auto
termination
  by (relation "measure nat") auto

declare bits.simps [simp del]

text \<open>
  The double nearest to an integer that is not negative. Below \<open>2^53\<close> every such
  integer is a double. From there on a double keeps the leading 53 binary digits: the
  digits below them are rounded off to the nearest, a tie going to the even neighbour,
  and what reaches \<open>2^1024\<close> is \<^verbatim>\<open>Infinity\<close>.
\<close>

definition round_to_double :: "int \<Rightarrow> number" where
  "round_to_double n =
     (if n < 2 ^ 53 then Finite n
      else
        let e = bits n - 53;
            q = n div 2 ^ e;
            r = n mod 2 ^ e;
            half = 2 ^ (e - 1);
            v = (if half < r \<or> (r = half \<and> odd q) then (q + 1) * 2 ^ e else q * 2 ^ e)
        in if 2 ^ 1024 \<le> v then PosInfinity else Finite v)"

fun negate :: "number \<Rightarrow> number" where
  "negate NaN = NaN"
| "negate (Finite n) = Finite (- n)"
| "negate PosInfinity = NegInfinity"
| "negate NegInfinity = PosInfinity"

text \<open>\<^verbatim>\<open>isNaN(x)\<close>, and \<^verbatim>\<open>x < k\<close> for an integer \<open>k\<close>.\<close>

fun isNaN :: "number \<Rightarrow> bool" where
  "isNaN NaN = True"
| "isNaN x = False"

fun less_than :: "number \<Rightarrow> int \<Rightarrow> bool" where
  "less_than NaN k = False"
| "less_than (Finite n) k = (n < k)"
| "less_than PosInfinity k = False"
| "less_than NegInfinity k = True"

text \<open>
  \<^verbatim>\<open>parseInt(s)\<close> with no radix, after ECMAScript: leading white space is dropped, then
  a sign, then \<^verbatim>\<open>0x\<close> or \<^verbatim>\<open>0X\<close> (which makes the radix 16); the longest run of digits
  of the radix is the number, and an empty run is \<^verbatim>\<open>NaN\<close>. The result is the double
  nearest to the integer the digits denote, with the sign.
\<close>

definition digit_val :: "char \<Rightarrow> nat option" where
  "digit_val c =
     (let n = (of_char c :: nat)
      in if 48 \<le> n \<and> n \<le> 57 then Some (n - 48)
         else if 97 \<le> n \<and> n \<le> 122 then Some (n - 87)
         else if 65 \<le> n \<and> n \<le> 90 then Some (n - 55)
         else None)"

definition is_digit_of :: "nat \<Rightarrow> char \<Rightarrow> bool" where
  "is_digit_of radix c = (case digit_val c of None \<Rightarrow> False | Some d \<Rightarrow> d < radix)"

definition digits_value :: "nat \<Rightarrow> string \<Rightarrow> int" where
  "digits_value radix ds =
     foldl (\<lambda>acc c. acc * int radix + int (case digit_val c of None \<Rightarrow> 0 | Some d \<Rightarrow> d))
       0 ds"

definition strip_sign :: "string \<Rightarrow> int \<times> string" where
  "strip_sign s =
     (if s \<noteq> [] \<and> hd s = CHR ''-'' then (- 1, tl s)
      else if s \<noteq> [] \<and> hd s = CHR ''+'' then (1, tl s)
      else (1, s))"

definition strip_radix :: "string \<Rightarrow> nat \<times> string" where
  "strip_radix s =
     (if 2 \<le> length s \<and> hd s = CHR ''0'' \<and> (hd (tl s) = CHR ''x'' \<or> hd (tl s) = CHR ''X'')
      then (16, tl (tl s)) else (10, s))"

definition parseInt :: "string \<Rightarrow> number" where
  "parseInt s =
     (let (sign, s1) = strip_sign (dropWhile is_space s);
          (radix, s2) = strip_radix s1;
          z = takeWhile (is_digit_of radix) s2
      in if z = [] then NaN
         else if sign < 0 then negate (round_to_double (digits_value radix z))
         else round_to_double (digits_value radix z))"

section \<open>Responses, errors and the request\<close>

record user =
  user_id :: int
  user_name :: string
  user_email :: string
  user_age :: "int option"

text \<open>
  What \<^verbatim>\<open>res.json\<close> is given: \<^verbatim>\<open>{error}\<close>, \<^verbatim>\<open>{error, message}\<close>, a user, an array of
  users, \<^verbatim>\<open>{message, user}\<close>; and the page of Express's own last handler, which this
  application never reaches.
\<close>

datatype resp_body =
    ErrorBody string
  | ErrorWithMessage string string
  | UserBody user
  | UserList "user list"
  | Deleted string user
  | DefaultPage

record response =
  status :: nat
  payload :: resp_body

text \<open>
  An error object, by what the source reads of it: \<^verbatim>\<open>err instanceof SyntaxError\<close>,
  \<^verbatim>\<open>err.status\<close>, \<^verbatim>\<open>'body' in err\<close>, \<^verbatim>\<open>error.code\<close> and \<^verbatim>\<open>err.message\<close>.
\<close>

record js_error =
  is_SyntaxError :: bool
  err_status :: "nat option"
  has_body :: bool
  err_code :: "string option"
  err_message :: string

text \<open>The error \<^verbatim>\<open>express.json()\<close> passes on for a body that does not parse.\<close>

definition body_parse_error :: "string \<Rightarrow> js_error" where
  "body_parse_error m =
     \<lparr>is_SyntaxError = True, err_status = Some 400, has_body = True, err_code = None,
      err_message = m\<rparr>"

definition type_error :: "string \<Rightarrow> js_error" where
  "type_error m =
     \<lparr>is_SyntaxError = False, err_status = None, has_body = False, err_code = None,
      err_message = m\<rparr>"

definition prisma_known_error :: "string \<Rightarrow> string \<Rightarrow> js_error" where
  "prisma_known_error code m =
     \<lparr>is_SyntaxError = False, err_status = None, has_body = False, err_code = Some code,
      err_message = m\<rparr>"

definition prisma_validation_error :: js_error where
  "prisma_validation_error =
     \<lparr>is_SyntaxError = False, err_status = None, has_body = False, err_code = None,
      err_message = ''Invalid invocation''\<rparr>"

datatype http_method = GET | POST | PUT | PATCH | DELETE

text \<open>The body as it arrives: text that does not parse, or the parsed object.\<close>

datatype raw_body = Malformed string | Parsed body

text \<open>\<^verbatim>\<open>req.params.id\<close>: the path segment, until \<^verbatim>\<open>validateId\<close> stores the number.\<close>

datatype param = PString string | PNumber number

text \<open>
  The request. The path is the list of its decoded segments (\<^verbatim>\<open>/users/7\<close> is
  \<open>[''users'', ''7'']\<close>). \<open>req_body\<close> and \<open>req_param_id\<close> are what the middleware
  write: \<^verbatim>\<open>req.body\<close> and \<^verbatim>\<open>req.params.id\<close>.
\<close>

record req =
  req_method :: http_method
  req_path :: "string list"
  req_raw :: raw_body
  req_body :: body
  req_param_id :: "param option"

section \<open>The user store\<close>

text \<open>
  The table of users and the counter that numbers them. The rows are in no particular
  order.
\<close>

record store =
  rows :: "user list"
  next_id :: int

text \<open>The \<^verbatim>\<open>data\<close> object of a Prisma call; \<open>None\<close> is \<^verbatim>\<open>undefined\<close>.\<close>

record data =
  d_name :: jsval
  d_email :: jsval
  d_age :: jsval

datatype 'a arg = Omitted | Bad | Given 'a

fun string_arg :: "jsval \<Rightarrow> string arg" where
  "string_arg None = Omitted"
| "string_arg (Some (JStr s)) = Given s"
| "string_arg (Some v) = Bad"

fun int_arg :: "jsval \<Rightarrow> int option arg" where
  "int_arg None = Omitted"
| "int_arg (Some JNull) = Given None"
| "int_arg (Some (JNum q)) = (if isInteger q then Given (Some \<lfloor>q\<rfloor>) else Bad)"
| "int_arg (Some v) = Bad"

definition email_taken :: "string \<Rightarrow> user list \<Rightarrow> bool" where
  "email_taken e us = list_ex (\<lambda>u. user_email u = e) us"

text \<open>
  Modelled from the spec: the Prisma client and the schema of the user table are not
  under \<^verbatim>\<open>src/\<close>. \<^verbatim>\<open>prisma.user.findMany({orderBy: {id: 'asc'}})\<close> is \<open>listAll\<close>:
  all users, sorted ascending by id.
\<close>

definition prisma_findMany_by_id_asc :: "store \<Rightarrow> user list" where
  "prisma_findMany_by_id_asc s = sort_key user_id (rows s)"

text \<open>
  Modelled from the spec: \<^verbatim>\<open>prisma.user.findUniqueOrThrow({where: {id}})\<close> is
  \<open>getById\<close>: the matching user, or the failure \<open>NotFound\<close> (Prisma's code P2025).
\<close>

definition prisma_findUniqueOrThrow :: "int \<Rightarrow> store \<Rightarrow> js_error + user" where
  "prisma_findUniqueOrThrow i s =
     (case find (\<lambda>u. user_id u = i) (rows s) of
        None \<Rightarrow> Inl (prisma_known_error ''P2025'' ''No User found'')
      | Some u \<Rightarrow> Inr u)"

text \<open>
  Modelled from the spec: \<^verbatim>\<open>prisma.user.create({data})\<close> is \<open>create\<close>: it inserts a new
  user, the store assigns the id (never one used before), and it fails with
  \<open>EmailConflict\<close> (Prisma's code P2002) if the email already exists. An absent age is
  stored as not set. Arguments of the wrong type are refused with an error that has no
  code.
\<close>

definition prisma_create :: "data \<Rightarrow> store \<Rightarrow> js_error + (user \<times> store)" where
  "prisma_create d s =
     (case (string_arg (d_name d), string_arg (d_email d), int_arg (d_age d)) of
        (Given n, Given e, a) \<Rightarrow>
          if a = Bad then Inl prisma_validation_error
          else if email_taken e (rows s)
          then Inl (prisma_known_error ''P2002'' ''Unique constraint failed'')
          else
            let u = \<lparr>user_id = next_id s, user_name = n, user_email = e,
                     user_age = (case a of Given v \<Rightarrow> v | _ \<Rightarrow> None)\<rparr>
            in Inr (u, s\<lparr>rows := rows s @ [u], next_id := next_id s + 1\<rparr>)
      | _ \<Rightarrow> Inl prisma_validation_error)"

text \<open>
  Modelled from the spec: \<^verbatim>\<open>prisma.user.update({where: {id}, data})\<close> is the one call
  behind both \<open>replace\<close> and \<open>patch\<close>. It overwrites only the supplied fields; a field
  of \<^verbatim>\<open>data\<close> that is \<^verbatim>\<open>undefined\<close> is not supplied, and the stored value stays. It
  fails with \<open>NotFound\<close> (P2025) if the user is absent and with \<open>EmailConflict\<close> (P2002)
  if the new email is that of a different user.
\<close>

definition prisma_update :: "int \<Rightarrow> data \<Rightarrow> store \<Rightarrow> js_error + (user \<times> store)" where
  "prisma_update i d s =
     (let n = string_arg (d_name d); e = string_arg (d_email d); a = int_arg (d_age d)
      in if n = Bad \<or> e = Bad \<or> a = Bad then Inl prisma_validation_error
         else
           case find (\<lambda>u. user_id u = i) (rows s) of
             None \<Rightarrow> Inl (prisma_known_error ''P2025'' ''Record to update not found'')
           | Some u \<Rightarrow>
               if (case e of Given x \<Rightarrow>
                     list_ex (\<lambda>v. user_id v \<noteq> i \<and> user_email v = x) (rows s)
                   | _ \<Rightarrow> False)
               then Inl (prisma_known_error ''P2002'' ''Unique constraint failed'')
               else
                 let u' = u\<lparr>user_name := (case n of Given x \<Rightarrow> x | _ \<Rightarrow> user_name u),
                            user_email := (case e of Given x \<Rightarrow> x | _ \<Rightarrow> user_email u),
                            user_age := (case a of Given x \<Rightarrow> x | _ \<Rightarrow> user_age u)\<rparr>
                 in Inr (u', s\<lparr>rows := map (\<lambda>v. if user_id v = i then u' else v) (rows s)\<rparr>))"

text \<open>
  Modelled from the spec: \<^verbatim>\<open>prisma.user.delete({where: {id}})\<close> is \<open>delete\<close>: it removes
  the user and returns its last-known state, or fails with \<open>NotFound\<close> (P2025).
\<close>

definition prisma_delete :: "int \<Rightarrow> store \<Rightarrow> js_error + (user \<times> store)" where
  "prisma_delete i s =
     (case find (\<lambda>u. user_id u = i) (rows s) of
        None \<Rightarrow> Inl (prisma_known_error ''P2025'' ''Record to delete does not exist'')
      | Some u \<Rightarrow> Inr (u, s\<lparr>rows := filter (\<lambda>v. user_id v \<noteq> i) (rows s)\<rparr>))"

section \<open>Express: handlers and the middleware chain\<close>

text \<open>
  What a handler does with a request: it sends a response (\<open>Done\<close>, with the store as
  it leaves it), calls \<^verbatim>\<open>next()\<close> (\<open>Next\<close>, with the request as it leaves it), or
  calls \<^verbatim>\<open>next(err)\<close> or throws (\<open>NextErr\<close>).
\<close>

datatype result = Done response store | Next req | NextErr js_error

type_synonym handler = "req \<Rightarrow> store \<Rightarrow> result"

type_synonym error_handler = "js_error \<Rightarrow> req \<Rightarrow> store \<Rightarrow> result"

datatype route_path = UsersPath | UserIdPath

text \<open>
  One entry of the application's stack: \<^verbatim>\<open>app.use\<close> of a handler of three arguments,
  \<^verbatim>\<open>app.use\<close> of an error handler (four arguments), or a route with its handlers.
\<close>

datatype layer =
    Use handler
  | UseErr error_handler
  | Route http_method route_path "handler list"

text \<open>
  Route paths: \<^verbatim>\<open>/users\<close> and \<^verbatim>\<open>/users/:id\<close>. Express compares the fixed segment
  without regard to case; \<^verbatim>\<open>:id\<close> is one non-empty segment. The result is
  \<^verbatim>\<open>req.params.id\<close> of a matching path.
\<close>

fun match_path :: "route_path \<Rightarrow> string list \<Rightarrow> param option option" where
  "match_path UsersPath [a] = (if toLowerCase a = ''users'' then Some None else None)"
| "match_path UserIdPath [a, b] =
     (if toLowerCase a = ''users'' \<and> b \<noteq> [] then Some (Some (PString b)) else None)"
| "match_path p segs = None"

text \<open>The handlers of one route, in order; each runs when the one before called next().\<close>

fun run_handlers :: "handler list \<Rightarrow> req \<Rightarrow> store \<Rightarrow> result" where
  "run_handlers [] r s = Next r"
| "run_handlers (h # hs) r s =
     (case h r s of
        Next r' \<Rightarrow> run_handlers hs r' s
      | Done resp s' \<Rightarrow> Done resp s'
      | NextErr e \<Rightarrow> NextErr e)"

text \<open>
  Express walks the stack from the layer after the one that called next. With no error
  pending it skips the error handlers; with an error pending it skips everything but
  the error handlers that come later in the stack. At the end of the stack Express's
  own last handler answers.
\<close>

fun dispatch :: "layer list \<Rightarrow> js_error option \<Rightarrow> req \<Rightarrow> store \<Rightarrow> response \<times> store" where
  "dispatch [] None r s = (\<lparr>status = 404, payload = DefaultPage\<rparr>, s)"
| "dispatch [] (Some e) r s =
     (\<lparr>status = (case err_status e of None \<Rightarrow> 500 | Some c \<Rightarrow> c), payload = DefaultPage\<rparr>, s)"
| "dispatch (Use h # ls) None r s =
     (case h r s of
        Done resp s' \<Rightarrow> (resp, s')
      | Next r' \<Rightarrow> dispatch ls None r' s
      | NextErr e \<Rightarrow> dispatch ls (Some e) r s)"
| "dispatch (Use h # ls) (Some e) r s = dispatch ls (Some e) r s"
| "dispatch (UseErr h # ls) None r s = dispatch ls None r s"
| "dispatch (UseErr h # ls) (Some e) r s =
     (case h e r s of
        Done resp s' \<Rightarrow> (resp, s')
      | Next r' \<Rightarrow> dispatch ls None r' s
      | NextErr e' \<Rightarrow> dispatch ls (Some e') r s)"
| "dispatch (Route m p hs # ls) None r s =
     (if req_method r = m then
        (case match_path p (req_path r) of
           None \<Rightarrow> dispatch ls None r s
         | Some prm \<Rightarrow>
             (case run_handlers hs (r\<lparr>req_param_id := prm\<rparr>) s of
                Done resp s' \<Rightarrow> (resp, s')
              | Next r' \<Rightarrow> dispatch ls None r' s
              | NextErr e \<Rightarrow> dispatch ls (Some e) r s))
      else dispatch ls None r s)"
| "dispatch (Route m p hs # ls) (Some e) r s = dispatch ls (Some e) r s"

section \<open>The middleware of the application\<close>

definition json_reply :: "nat \<Rightarrow> resp_body \<Rightarrow> response" where
  "json_reply code b = \<lparr>status = code, payload = b\<rparr>"

text \<open>\<^verbatim>\<open>cors()\<close> and the request logger pass every request of these methods on.\<close>

definition cors :: handler where
  "cors r s = Next r"

definition request_logger :: handler where
  "request_logger r s = Next r"

text \<open>Lines 19 to 24: the error handler for bodies that do not parse.\<close>

definition json_error_handler :: error_handler where
  "json_error_handler err r s =
     (if is_SyntaxError err \<and> err_status err = Some 400 \<and> has_body err
      then Done (json_reply 400 (ErrorBody ''Invalid JSON'')) s
      else NextErr err)"

text \<open>\<^verbatim>\<open>express.json()\<close>: sets \<^verbatim>\<open>req.body\<close>, or passes the parse error on.\<close>

definition express_json :: handler where
  "express_json r s =
     (case req_raw r of
        Malformed m \<Rightarrow> NextErr (body_parse_error m)
      | Parsed b \<Rightarrow> Next (r\<lparr>req_body := b\<rparr>))"

text \<open>Lines 29 to 36.\<close>

definition validateId :: handler where
  "validateId r s =
     (case req_param_id r of
        Some (PString p) \<Rightarrow>
          (let parsed = parseInt p
           in if isNaN parsed \<or> less_than parsed 1
              then Done (json_reply 400 (ErrorBody ''Invalid ID parameter'')) s
              else Next (r\<lparr>req_param_id := Some (PNumber parsed)\<rparr>))
      | Some (PNumber x) \<Rightarrow>
          if isNaN x \<or> less_than x 1
          then Done (json_reply 400 (ErrorBody ''Invalid ID parameter'')) s
          else Next r
      | None \<Rightarrow> Done (json_reply 400 (ErrorBody ''Invalid ID parameter'')) s)"

text \<open>Lines 39 to 45.\<close>

definition errorHandler :: error_handler where
  "errorHandler err r s =
     Done (json_reply 500 (ErrorWithMessage ''Something went wrong!'' (err_message err))) s"

text \<open>
  The string of a value that the guards before have shown to be a string, and the
  number of one shown to be a number.
\<close>

fun str_of :: "jsval \<Rightarrow> string" where
  "str_of (Some (JStr s)) = s"
| "str_of v = []"

fun num_of :: "jsval \<Rightarrow> rat" where
  "num_of (Some (JNum q)) = q"
| "num_of v = 0"

text \<open>
  Lines 48 to 68. \<^verbatim>\<open>email.match\<close> is a function only when \<^verbatim>\<open>email\<close> is a string; on
  any other value that is not falsy the call throws a TypeError, which Express passes
  to the error handlers.
\<close>

definition validateUserInput :: handler where
  "validateUserInput r s =
     (let name = req_body r ''name''; email = req_body r ''email''; age = req_body r ''age''
      in if falsy name \<or> typeof name \<noteq> TString \<or> length (trim (str_of name)) = 0
         then Done (json_reply 400 (ErrorBody ''Valid name is required'')) s
         else if falsy email
         then Done (json_reply 400 (ErrorBody ''Valid email is required'')) s
         else if typeof email \<noteq> TString
         then NextErr (type_error ''email.match is not a function'')
         else if \<not> re_match email_re (str_of email)
         then Done (json_reply 400 (ErrorBody ''Valid email is required'')) s
         else if age \<noteq> None \<and>
                 (typeof age \<noteq> TNumber \<or> num_of age < 0 \<or> \<not> isInteger (num_of age))
         then Done (json_reply 400 (ErrorBody ''Age must be a positive integer'')) s
         else Next (r\<lparr>req_body := (req_body r)
                        (''name'' \<mapsto> JStr (trim (str_of name)),
                         ''email'' \<mapsto> JStr (trim (toLowerCase (str_of email))))\<rparr>))"

section \<open>The routes\<close>

text \<open>
  The \<^verbatim>\<open>catch\<close> blocks: P2025 is answered 404, P2002 is answered 409 where the route
  looks for it, and any other error goes to \<^verbatim>\<open>next(error)\<close>.
\<close>

definition user_not_found :: response where
  "user_not_found = json_reply 404 (ErrorBody ''User not found'')"

definition email_exists :: response where
  "email_exists = json_reply 409 (ErrorBody ''Email already exists'')"

text \<open>Lines 72 to 81: GET /users.\<close>

definition get_users :: handler where
  "get_users r s = Done (json_reply 200 (UserList (prisma_findMany_by_id_asc s))) s"

text \<open>
  The \<^verbatim>\<open>where: {id: req.params.id}\<close> of the routes below: Prisma takes an integer, and
  refuses anything else with an error that has no code.
\<close>

fun where_id :: "param option \<Rightarrow> js_error + int" where
  "where_id (Some (PNumber (Finite n))) = Inr n"
| "where_id p = Inl prisma_validation_error"

text \<open>Lines 84 to 96: GET /users/:id.\<close>

definition get_user :: handler where
  "get_user r s =
     (case where_id (req_param_id r) of
        Inl e \<Rightarrow> NextErr e
      | Inr i \<Rightarrow>
          (case prisma_findUniqueOrThrow i s of
             Inr u \<Rightarrow> Done (json_reply 200 (UserBody u)) s
           | Inl e \<Rightarrow>
               if err_code e = Some ''P2025'' then Done user_not_found s else NextErr e))"

text \<open>Lines 99 to 112: POST /users.\<close>

definition post_users :: handler where
  "post_users r s =
     (let name = req_body r ''name''; email = req_body r ''email''; age = req_body r ''age''
      in case prisma_create \<lparr>d_name = name, d_email = email, d_age = age\<rparr> s of
           Inr (u, s') \<Rightarrow> Done (json_reply 201 (UserBody u)) s'
         | Inl e \<Rightarrow>
             if err_code e = Some ''P2002'' then Done email_exists s else NextErr e)"

text \<open>Lines 115 to 132: PUT /users/:id.\<close>

definition put_user :: handler where
  "put_user r s =
     (let name = req_body r ''name''; email = req_body r ''email''; age = req_body r ''age''
      in case where_id (req_param_id r) of
           Inl e \<Rightarrow> NextErr e
         | Inr i \<Rightarrow>
             (case prisma_update i \<lparr>d_name = name, d_email = email, d_age = age\<rparr> s of
                Inr (u, s') \<Rightarrow> Done (json_reply 200 (UserBody u)) s'
              | Inl e \<Rightarrow>
                  if err_code e = Some ''P2025'' then Done user_not_found s
                  else if err_code e = Some ''P2002'' then Done email_exists s
                  else NextErr e))"

text \<open>
  Lines 137 to 159 of the PATCH handler: the three blocks that fill \<^verbatim>\<open>updateData\<close>.
  A block returns a response, throws, or goes on with \<^verbatim>\<open>updateData\<close>.
\<close>

datatype 'a attempt = Return response | Throw js_error | Go 'a

definition and_then :: "'a attempt \<Rightarrow> ('a \<Rightarrow> 'b attempt) \<Rightarrow> 'b attempt" where
  "and_then a f = (case a of Return resp \<Rightarrow> Return resp | Throw e \<Rightarrow> Throw e | Go x \<Rightarrow> f x)"

definition empty_data :: data where
  "empty_data = \<lparr>d_name = None, d_email = None, d_age = None\<rparr>"

definition patch_name :: "jsval \<Rightarrow> data \<Rightarrow> data attempt" where
  "patch_name name updateData =
     (if name \<noteq> None then
        if typeof name \<noteq> TString \<or> length (trim (str_of name)) = 0
        then Return (json_reply 400 (ErrorBody ''Valid name is required''))
        else Go (updateData\<lparr>d_name := Some (JStr (trim (str_of name)))\<rparr>)
      else Go updateData)"

definition patch_email :: "jsval \<Rightarrow> data \<Rightarrow> data attempt" where
  "patch_email email updateData =
     (if email \<noteq> None then
        if falsy email
        then Return (json_reply 400 (ErrorBody ''Valid email is required''))
        else if typeof email \<noteq> TString
        then Throw (type_error ''email.match is not a function'')
        else if \<not> re_match patch_email_re (str_of email)
        then Return (json_reply 400 (ErrorBody ''Valid email is required''))
        else Go (updateData\<lparr>d_email := Some (JStr (trim (toLowerCase (str_of email))))\<rparr>)
      else Go updateData)"

definition patch_age :: "jsval \<Rightarrow> data \<Rightarrow> data attempt" where
  "patch_age age updateData =
     (if age \<noteq> None then
        if typeof age \<noteq> TNumber \<or> num_of age < 0 \<or> \<not> isInteger (num_of age)
        then Return (json_reply 400 (ErrorBody ''Age must be a positive integer''))
        else Go (updateData\<lparr>d_age := age\<rparr>)
      else Go updateData)"

definition patch_fields :: "body \<Rightarrow> data attempt" where
  "patch_fields b =
     and_then (patch_name (b ''name'') empty_data) (\<lambda>u1.
     and_then (patch_email (b ''email'') u1) (\<lambda>u2.
     patch_age (b ''age'') u2))"

text \<open>
  \<^verbatim>\<open>Object.keys(updateData)\<close>: the blocks above assign a key only a value that is not
  \<^verbatim>\<open>undefined\<close>, so the keys are the fields that are set.
\<close>

definition object_keys :: "data \<Rightarrow> string list" where
  "object_keys d =
     (if d_name d \<noteq> None then [''name''] else []) @
     (if d_email d \<noteq> None then [''email''] else []) @
     (if d_age d \<noteq> None then [''age''] else [])"

text \<open>Lines 135 to 179: PATCH /users/:id.\<close>

definition patch_user :: handler where
  "patch_user r s =
     (case patch_fields (req_body r) of
        Return resp \<Rightarrow> Done resp s
      | Throw e \<Rightarrow> NextErr e
      | Go updateData \<Rightarrow>
          if length (object_keys updateData) = 0
          then Done (json_reply 400 (ErrorBody ''No valid update data provided'')) s
          else
            (case where_id (req_param_id r) of
               Inl e \<Rightarrow> NextErr e
             | Inr i \<Rightarrow>
                 (case prisma_update i updateData s of
                    Inr (u, s') \<Rightarrow> Done (json_reply 200 (UserBody u)) s'
                  | Inl e \<Rightarrow>
                      if err_code e = Some ''P2025'' then Done user_not_found s
                      else if err_code e = Some ''P2002'' then Done email_exists s
                      else NextErr e)))"

text \<open>Lines 182 to 197: DELETE /users/:id.\<close>

definition delete_user :: handler where
  "delete_user r s =
     (case where_id (req_param_id r) of
        Inl e \<Rightarrow> NextErr e
      | Inr i \<Rightarrow>
          (case prisma_delete i s of
             Inr (deletedUser, s') \<Rightarrow>
               Done (json_reply 200
                 (Deleted (''User '' @ user_name deletedUser @ '' deleted successfully'')
                    deletedUser)) s'
           | Inl e \<Rightarrow>
               if err_code e = Some ''P2025'' then Done user_not_found s else NextErr e))"

text \<open>Lines 200 to 202.\<close>

definition route_not_found :: handler where
  "route_not_found r s = Done (json_reply 404 (ErrorBody ''Route not found'')) s"

text \<open>The application: every \<^verbatim>\<open>app.use\<close> and route of the source, in its order.\<close>

definition app_stack :: "layer list" where
  "app_stack =
     [Use cors,
      Use request_logger,
      UseErr json_error_handler,
      Use express_json,
      Route GET UsersPath [get_users],
      Route GET UserIdPath [validateId, get_user],
      Route POST UsersPath [validateUserInput, post_users],
      Route PUT UserIdPath [validateId, validateUserInput, put_user],
      Route PATCH UserIdPath [validateId, patch_user],
      Route DELETE UserIdPath [validateId, delete_user],
      Use route_not_found,
      UseErr errorHandler]"

definition new_req :: "http_method \<Rightarrow> string list \<Rightarrow> raw_body \<Rightarrow> req" where
  "new_req m p raw =
     \<lparr>req_method = m, req_path = p, req_raw = raw, req_body = Map.empty,
      req_param_id = None\<rparr>"

definition app :: "http_method \<Rightarrow> string list \<Rightarrow> raw_body \<Rightarrow> store \<Rightarrow> response \<times> store" where
  "app m p raw s = dispatch app_stack None (new_req m p raw) s"

section \<open>Notions used in the statements\<close>

text \<open>
  A request whose body parsed, as it stands when a route's handlers start:
  \<^verbatim>\<open>express.json()\<close> has set \<^verbatim>\<open>req.body\<close> and the route has set \<^verbatim>\<open>req.params\<close>.
\<close>

definition parsed_req :: "http_method \<Rightarrow> string list \<Rightarrow> body \<Rightarrow> param option \<Rightarrow> req" where
  "parsed_req m p b prm =
     \<lparr>req_method = m, req_path = p, req_raw = Parsed b, req_body = b, req_param_id = prm\<rparr>"

text \<open>
  What the client gets from the result of a route's handlers: the response they sent;
  after \<^verbatim>\<open>next(err)\<close>, the answer of \<open>errorHandler\<close>; after a plain \<^verbatim>\<open>next()\<close>, the
  answer of the handler for undefined routes.
\<close>

definition answer :: "result \<Rightarrow> store \<Rightarrow> response \<times> store" where
  "answer res s =
     (case res of
        Done resp s' \<Rightarrow> (resp, s')
      | Next r' \<Rightarrow> (json_reply 404 (ErrorBody ''Route not found''), s)
      | NextErr e \<Rightarrow>
          (json_reply 500 (ErrorWithMessage ''Something went wrong!'' (err_message e)), s))"

text \<open>
  The handlers of the routes on \<^verbatim>\<open>/users/:id\<close> that come after \<open>validateId\<close>.
\<close>

definition id_route_handlers :: "http_method \<Rightarrow> handler list" where
  "id_route_handlers m =
     (case m of
        GET \<Rightarrow> [get_user]
      | PUT \<Rightarrow> [validateUserInput, put_user]
      | PATCH \<Rightarrow> [patch_user]
      | DELETE \<Rightarrow> [delete_user]
      | POST \<Rightarrow> [])"

text \<open>
  A decimal numeral and the number it denotes, read off the digits themselves.
\<close>

definition is_decimal_digit :: "char \<Rightarrow> bool" where
  "is_decimal_digit c = (c \<in> set ''0123456789'')"

text \<open>The value of a digit is its place in the row of the ten digits.\<close>

definition digit_of :: "char \<Rightarrow> nat" where
  "digit_of c = length (takeWhile (\<lambda>d. d \<noteq> c) ''0123456789'')"

fun decimal_value_rev :: "string \<Rightarrow> nat" where
  "decimal_value_rev [] = 0"
| "decimal_value_rev (c # cs) = digit_of c + 10 * decimal_value_rev cs"

definition decimal_value :: "string \<Rightarrow> nat" where
  "decimal_value ds = decimal_value_rev (rev ds)"

text \<open>
  The partial-update validation as the specification words it: each field present in
  the payload is validated and normalized by the rules of the full-input validation,
  and absent fields are left alone. Here the full-input validator itself runs on the
  payload, with a valid placeholder for an absent name and an absent email, and only
  the fields that the payload supplies are kept of its result.
\<close>

definition with_placeholders :: "body \<Rightarrow> body" where
  "with_placeholders b =
     b(''name'' \<mapsto> (case b ''name'' of None \<Rightarrow> JStr ''x'' | Some v \<Rightarrow> v),
       ''email'' \<mapsto> (case b ''email'' of None \<Rightarrow> JStr ''x@y.z'' | Some v \<Rightarrow> v))"

definition full_validation_restricted :: "req \<Rightarrow> store \<Rightarrow> data attempt" where
  "full_validation_restricted r s =
     (case validateUserInput (r\<lparr>req_body := with_placeholders (req_body r)\<rparr>) s of
        Done resp s' \<Rightarrow> Return resp
      | NextErr e \<Rightarrow> Throw e
      | Next r' \<Rightarrow>
          Go \<lparr>d_name = (if req_body r ''name'' = None then None else req_body r' ''name''),
              d_email = (if req_body r ''email'' = None then None else req_body r' ''email''),
              d_age = req_body r' ''age''\<rparr>)"

section \<open>From the application to the handlers of a route\<close>

lemma users_lower: "toLowerCase ''users'' = ''users''"
  by code_simp

lemma get_users_no_next: "get_users r s \<noteq> Next r'"
  by (simp add: get_users_def)

lemma get_user_no_next: "get_user r s \<noteq> Next r'"
  by (simp add: get_user_def split: sum.splits)

lemma post_users_no_next: "post_users r s \<noteq> Next r'"
  by (simp add: post_users_def split: sum.splits prod.splits)

lemma put_user_no_next: "put_user r s \<noteq> Next r'"
  by (simp add: put_user_def split: sum.splits prod.splits)

lemma patch_user_no_next: "patch_user r s \<noteq> Next r'"
  by (simp add: patch_user_def split: sum.splits prod.splits attempt.splits)

lemma delete_user_no_next: "delete_user r s \<noteq> Next r'"
  by (simp add: delete_user_def split: sum.splits prod.splits)

lemma chain_no_next:
  "run_handlers [get_users] r s \<noteq> Next r'"
  "run_handlers [validateId, get_user] r s \<noteq> Next r'"
  "run_handlers [validateUserInput, post_users] r s \<noteq> Next r'"
  "run_handlers [validateId, validateUserInput, put_user] r s \<noteq> Next r'"
  "run_handlers [validateId, patch_user] r s \<noteq> Next r'"
  "run_handlers [validateId, delete_user] r s \<noteq> Next r'"
  by (simp_all add: get_users_no_next get_user_no_next post_users_no_next put_user_no_next
        patch_user_no_next delete_user_no_next split: result.splits)

lemmas app_unfold = app_def app_stack_def new_req_def cors_def request_logger_def express_json_def
      parsed_req_def answer_def route_not_found_def errorHandler_def users_lower

lemma app_post_users:
  "app POST [''users''] (Parsed b) s =
     answer (run_handlers [validateUserInput, post_users] (parsed_req POST [''users''] b None) s) s"
  using chain_no_next(3) [where s = s]
  by (simp add: app_unfold del: run_handlers.simps split: result.splits)

lemma app_get_users:
  "app GET [''users''] (Parsed b) s =
     answer (run_handlers [get_users] (parsed_req GET [''users''] b None) s) s"
  using chain_no_next(1) [where s = s]
  by (simp add: app_unfold del: run_handlers.simps split: result.splits)

lemma app_get_user:
  "seg \<noteq> [] \<Longrightarrow> app GET [''users'', seg] (Parsed b) s =
     answer (run_handlers [validateId, get_user] (parsed_req GET [''users'', seg] b (Some (PString seg))) s) s"
  using chain_no_next(2) [where s = s]
  by (simp add: app_unfold del: run_handlers.simps split: result.splits)

lemma app_put_user:
  "seg \<noteq> [] \<Longrightarrow> app PUT [''users'', seg] (Parsed b) s =
     answer (run_handlers [validateId, validateUserInput, put_user] (parsed_req PUT [''users'', seg] b (Some (PString seg))) s) s"
  using chain_no_next(4) [where s = s]
  by (simp add: app_unfold del: run_handlers.simps split: result.splits)

lemma app_patch_user:
  "seg \<noteq> [] \<Longrightarrow> app PATCH [''users'', seg] (Parsed b) s =
     answer (run_handlers [validateId, patch_user] (parsed_req PATCH [''users'', seg] b (Some (PString seg))) s) s"
  using chain_no_next(5) [where s = s]
  by (simp add: app_unfold del: run_handlers.simps split: result.splits)

lemma app_delete_user:
  "seg \<noteq> [] \<Longrightarrow> app DELETE [''users'', seg] (Parsed b) s =
     answer (run_handlers [validateId, delete_user] (parsed_req DELETE [''users'', seg] b (Some (PString seg))) s) s"
  using chain_no_next(6) [where s = s]
  by (simp add: app_unfold del: run_handlers.simps split: result.splits)

section \<open>Malformed JSON\<close>

text \<open>
  A body that does not parse is answered by \<open>errorHandler\<close>, whatever the method, the
  path and the store: the error leaves \<^verbatim>\<open>express.json()\<close>, and the only error handlers
  Express then looks at are those registered after it.
\<close>

lemma malformed_body_answer:
  "app m p (Malformed msg) s =
     (json_reply 500 (ErrorWithMessage ''Something went wrong!'' msg), s)"
  by (simp add: app_def app_stack_def new_req_def cors_def request_logger_def
        express_json_def body_parse_error_def errorHandler_def)

text \<open>
  Registered after \<^verbatim>\<open>express.json()\<close>, the same error handler would answer 400
  Invalid JSON.
\<close>

lemma json_error_handler_after_parser:
  "dispatch [Use express_json, UseErr json_error_handler] None (new_req m p (Malformed msg)) s =
     (json_reply 400 (ErrorBody ''Invalid JSON''), s)"
  by (simp add: express_json_def new_req_def body_parse_error_def json_error_handler_def)

text \<open>
  C1. The claim: a request whose body is malformed JSON is answered 400 with
  \<^verbatim>\<open>{error: "Invalid JSON"}\<close>, not by the 500 catch-all. The code: POST /users with the
  body \<^verbatim>\<open>{"name":\<close> is answered 500 with \<^verbatim>\<open>{error: "Something went wrong!", message}\<close>.
\<close>

theorem malformed_json_is_answered_500:
  "app POST [''users''] (Malformed ''Unexpected end of JSON input'') \<lparr>rows = [], next_id = 1\<rparr> =
     (\<lparr>status = 500,
       payload = ErrorWithMessage ''Something went wrong!'' ''Unexpected end of JSON input''\<rparr>,
      \<lparr>rows = [], next_id = 1\<rparr>)"
  by (simp add: malformed_body_answer json_reply_def)

section \<open>The id parameter\<close>

lemma digit_of_digits:
  "digit_of CHR ''0'' = 0" "digit_of CHR ''1'' = 1" "digit_of CHR ''2'' = 2"
  "digit_of CHR ''3'' = 3" "digit_of CHR ''4'' = 4" "digit_of CHR ''5'' = 5"
  "digit_of CHR ''6'' = 6" "digit_of CHR ''7'' = 7" "digit_of CHR ''8'' = 8"
  "digit_of CHR ''9'' = 9"
  by (simp_all add: digit_of_def)

lemma digit_val_digits:
  "digit_val CHR ''0'' = Some 0" "digit_val CHR ''1'' = Some 1" "digit_val CHR ''2'' = Some 2"
  "digit_val CHR ''3'' = Some 3" "digit_val CHR ''4'' = Some 4" "digit_val CHR ''5'' = Some 5"
  "digit_val CHR ''6'' = Some 6" "digit_val CHR ''7'' = Some 7" "digit_val CHR ''8'' = Some 8"
  "digit_val CHR ''9'' = Some 9"
  by (simp_all add: digit_val_def)

lemma decimal_digit_cases:
  "is_decimal_digit c \<longleftrightarrow>
     c = CHR ''0'' \<or> c = CHR ''1'' \<or> c = CHR ''2'' \<or> c = CHR ''3'' \<or> c = CHR ''4'' \<or>
     c = CHR ''5'' \<or> c = CHR ''6'' \<or> c = CHR ''7'' \<or> c = CHR ''8'' \<or> c = CHR ''9''"
  by (simp add: is_decimal_digit_def)

lemma digit_val_decimal: "is_decimal_digit c \<Longrightarrow> digit_val c = Some (digit_of c)"
  unfolding decimal_digit_cases
  by (elim disjE) (simp_all only: digit_of_digits digit_val_digits)

lemma char_of_digits:
  "char_of (48::nat) = CHR ''0''" "char_of (49::nat) = CHR ''1''" "char_of (50::nat) = CHR ''2''"
  "char_of (51::nat) = CHR ''3''" "char_of (52::nat) = CHR ''4''" "char_of (53::nat) = CHR ''5''"
  "char_of (54::nat) = CHR ''6''" "char_of (55::nat) = CHR ''7''" "char_of (56::nat) = CHR ''8''"
  "char_of (57::nat) = CHR ''9''"
  by code_simp+

lemma of_char_cases:
  fixes c :: char
  assumes "48 \<le> (of_char c :: nat)" "(of_char c :: nat) \<le> 57"
  shows "is_decimal_digit c"
proof -
  have "of_char c \<in> {48, 49, 50, 51, 52, 53, 54, 55, 56, 57 :: nat}"
    using assms by (simp, arith)
  then have "char_of (of_char c :: nat) \<in> char_of ` {48, 49, 50, 51, 52, 53, 54, 55, 56, 57 :: nat}"
    by (rule imageI)
  then show ?thesis
    by (simp add: is_decimal_digit_def char_of_digits)
qed

lemma is_digit_of_10: "is_digit_of 10 c = is_decimal_digit c"
proof
  assume "is_digit_of 10 c"
  then show "is_decimal_digit c"
    by (auto simp: is_digit_of_def digit_val_def Let_def of_char_cases split: if_splits)
next
  assume "is_decimal_digit c"
  then show "is_digit_of 10 c"
    by (auto simp: is_decimal_digit_def is_digit_of_def digit_val_def)
qed

lemma decimal_not_space: "is_decimal_digit c \<Longrightarrow> \<not> is_space c"
  by (auto simp: is_decimal_digit_def is_space_def)

lemma digits_value_snoc:
  "digits_value radix (ds @ [c]) =
     digits_value radix ds * int radix + int (case digit_val c of None \<Rightarrow> 0 | Some d \<Rightarrow> d)"
  by (simp add: digits_value_def)

lemma digits_value_decimal:
  "list_all is_decimal_digit ds \<Longrightarrow> digits_value 10 ds = int (decimal_value ds)"
proof (induction ds rule: rev_induct)
  case Nil
  show ?case by (simp add: digits_value_def decimal_value_def)
next
  case (snoc c ds)
  then show ?case
    by (simp add: digits_value_snoc decimal_value_def digit_val_decimal)
qed


lemma takeWhile_decimal_prefix:
  assumes "list_all is_decimal_digit ds" "rest = [] \<or> \<not> is_decimal_digit (hd rest)"
  shows "takeWhile (is_digit_of 10) (ds @ rest) = ds"
proof -
  have "takeWhile is_decimal_digit (ds @ rest) = ds @ takeWhile is_decimal_digit rest"
    using assms(1) by (simp add: takeWhile_append2 list_all_iff)
  moreover have "takeWhile is_decimal_digit rest = []"
    using assms(2) by (cases rest) auto
  moreover have "is_digit_of 10 = is_decimal_digit"
    by (rule ext) (rule is_digit_of_10)
  ultimately show ?thesis by simp
qed

lemma decimal_value_single: "decimal_value [c] = digit_of c"
  by (simp add: decimal_value_def)

lemma strip_radix_decimal:
  assumes "ds \<noteq> []" "list_all is_decimal_digit ds" "1 \<le> decimal_value ds"
  shows "strip_radix (ds @ rest) = (10, ds @ rest)"
proof (cases ds)
  case Nil
  with assms(1) show ?thesis by simp
next
  case (Cons c cs)
  show ?thesis
  proof (cases cs)
    case Nil
    with Cons assms(3) have "c \<noteq> CHR ''0''"
      by (auto simp: decimal_value_single digit_of_digits)
    with Cons show ?thesis by (simp add: strip_radix_def)
  next
    case (Cons d ds')
    with \<open>ds = c # cs\<close> assms(2) have "is_decimal_digit d" by simp
    then have "d \<noteq> CHR ''x'' \<and> d \<noteq> CHR ''X''"
      by (auto simp: is_decimal_digit_def)
    with Cons \<open>ds = c # cs\<close> show ?thesis by (simp add: strip_radix_def)
  qed
qed

lemma strip_sign_decimal:
  assumes "ds \<noteq> []" "list_all is_decimal_digit ds"
  shows "strip_sign (dropWhile is_space (ds @ rest)) = (1, ds @ rest)"
proof -
  obtain c cs where ds: "ds = c # cs" using assms(1) by (cases ds) auto
  with assms(2) have c: "is_decimal_digit c" by simp
  then have "\<not> is_space c" by (rule decimal_not_space)
  moreover from c have "c \<noteq> CHR ''-'' \<and> c \<noteq> CHR ''+''"
    by (auto simp: is_decimal_digit_def)
  ultimately show ?thesis using ds by (simp add: strip_sign_def)
qed

lemma round_two_pow_53: "round_to_double (2 ^ 53) = Finite (2 ^ 53)"
  by code_simp

text \<open>
  Rounding at work: \<open>2^53 + 1\<close> lies midway between two doubles and goes to the even one,
  \<open>2^53 + 3\<close> goes up to \<open>2^53 + 4\<close>, and the largest double is \<open>2^1024 - 2^971\<close>.
\<close>

lemma round_to_double_examples:
  "round_to_double (2 ^ 53 + 1) = Finite (2 ^ 53)"
  "round_to_double (2 ^ 53 + 3) = Finite (2 ^ 53 + 4)"
  "round_to_double (2 ^ 1024 - 2 ^ 970 - 1) = Finite (2 ^ 1024 - 2 ^ 971)"
  "round_to_double (2 ^ 1024 - 2 ^ 970) = PosInfinity"
  by code_simp+

lemma round_to_double_exact:
  assumes "n \<le> 2 ^ 53"
  shows "round_to_double n = Finite n"
proof (cases "n < 2 ^ 53")
  case True
  then show ?thesis by (simp add: round_to_double_def)
next
  case False
  with assms have "n = 2 ^ 53" by simp
  then show ?thesis using round_two_pow_53 by simp
qed

lemma parseInt_decimal_prefix:
  assumes "ds \<noteq> []" "list_all is_decimal_digit ds"
    "rest = [] \<or> \<not> is_decimal_digit (hd rest)" "1 \<le> decimal_value ds"
  shows "parseInt (ds @ rest) = round_to_double (int (decimal_value ds))"
  using assms
  by (simp add: parseInt_def strip_sign_decimal strip_radix_decimal takeWhile_decimal_prefix
        digits_value_decimal)

lemma validateId_string:
  "validateId (r\<lparr>req_param_id := Some (PString p)\<rparr>) s =
     (if isNaN (parseInt p) \<or> less_than (parseInt p) 1
      then Done (json_reply 400 (ErrorBody ''Invalid ID parameter'')) s
      else Next (r\<lparr>req_param_id := Some (PNumber (parseInt p))\<rparr>))"
  by (simp add: validateId_def Let_def)

lemma id_routes_in_stack:
  "m \<noteq> POST \<Longrightarrow> Route m UserIdPath (validateId # id_route_handlers m) \<in> set app_stack"
  by (cases m) (simp_all add: app_stack_def id_route_handlers_def)

lemma parsed_req_param [simp]:
  "(parsed_req m p b prm)\<lparr>req_param_id := prm'\<rparr> = parsed_req m p b prm'"
  by (simp add: parsed_req_def)

lemma run_validateId:
  "run_handlers (validateId # hs) (parsed_req m p b (Some (PString seg))) s =
     (if isNaN (parseInt seg) \<or> less_than (parseInt seg) 1
      then Done (json_reply 400 (ErrorBody ''Invalid ID parameter'')) s
      else run_handlers hs (parsed_req m p b (Some (PNumber (parseInt seg)))) s)"
  using validateId_string [where r = "parsed_req m p b (Some (PString seg))" and p = seg and s = s]
  by simp

lemma app_id_route:
  assumes "seg \<noteq> []" "m \<noteq> POST"
  shows "app m [''users'', seg] (Parsed b) s =
     (if isNaN (parseInt seg) \<or> less_than (parseInt seg) 1
      then (json_reply 400 (ErrorBody ''Invalid ID parameter''), s)
      else answer (run_handlers (id_route_handlers m)
             (parsed_req m [''users'', seg] b (Some (PNumber (parseInt seg)))) s) s)"
proof (cases m)
  case GET
  then show ?thesis
    using assms(1) unfolding GET app_get_user [OF assms(1)] run_validateId id_route_handlers_def
    by (simp add: answer_def)
next
  case POST
  with assms(2) show ?thesis by simp
next
  case PUT
  then show ?thesis
    using assms(1) unfolding PUT app_put_user [OF assms(1)] run_validateId id_route_handlers_def
    by (simp add: answer_def)
next
  case PATCH
  then show ?thesis
    using assms(1) unfolding PATCH app_patch_user [OF assms(1)] run_validateId id_route_handlers_def
    by (simp add: answer_def)
next
  case DELETE
  then show ?thesis
    using assms(1) unfolding DELETE app_delete_user [OF assms(1)] run_validateId id_route_handlers_def
    by (simp add: answer_def)
qed






text \<open>
  C10, as amended. A segment that starts with a decimal numeral of value \<open>n\<close>, at least
  1 and at most \<open>2^53\<close>, followed by nothing or by a character that is no decimal digit,
  passes \<open>validateId\<close>, which stores \<open>n\<close>; on GET, PUT, PATCH and DELETE the client gets
  the answer of the handlers that follow, run with \<^verbatim>\<open>req.params.id\<close> set to \<open>n\<close>. So
  \<^verbatim>\<open>/users/12abc\<close> is id 12 and \<^verbatim>\<open>/users/3.9\<close> is id 3.
\<close>

theorem parseInt_accepts_decimal_prefix:
  assumes "ds \<noteq> []" and "list_all is_decimal_digit ds"
    and "rest = [] \<or> \<not> is_decimal_digit (hd rest)"
    and "1 \<le> decimal_value ds" and "decimal_value ds \<le> 2 ^ 53"
    and "m \<in> {GET, PUT, PATCH, DELETE}"
  shows "validateId (r\<lparr>req_param_id := Some (PString (ds @ rest))\<rparr>) s =
           Next (r\<lparr>req_param_id := Some (PNumber (Finite (int (decimal_value ds))))\<rparr>)
         \<and> app m [''users'', ds @ rest] (Parsed b) s =
             answer (run_handlers (id_route_handlers m)
               (parsed_req m [''users'', ds @ rest] b
                  (Some (PNumber (Finite (int (decimal_value ds)))))) s) s"
proof -
  have "parseInt (ds @ rest) = round_to_double (int (decimal_value ds))"
    using assms(1-4) by (rule parseInt_decimal_prefix)
  moreover from assms(5) have "int (decimal_value ds) \<le> 2 ^ 53"
    by (metis of_nat_le_iff of_nat_numeral of_nat_power)
  ultimately have p: "parseInt (ds @ rest) = Finite (int (decimal_value ds))"
    by (simp add: round_to_double_exact)
  have seg: "ds @ rest \<noteq> []" using assms(1) by simp
  from assms(6) have m: "m \<noteq> POST" by auto
  from app_id_route [OF seg m, of b s] assms(4)
  have "app m [''users'', ds @ rest] (Parsed b) s =
      answer (run_handlers (id_route_handlers m)
        (parsed_req m [''users'', ds @ rest] b
           (Some (PNumber (Finite (int (decimal_value ds)))))) s) s"
    by (simp add: p)
  moreover have "validateId (r\<lparr>req_param_id := Some (PString (ds @ rest))\<rparr>) s =
      Next (r\<lparr>req_param_id := Some (PNumber (Finite (int (decimal_value ds))))\<rparr>)"
    using assms(4) by (simp add: validateId_string p)
  ultimately show ?thesis by simp
qed

theorem parseInt_accepts_decimal_prefix_witness:
  "validateId (new_req GET [''users'', ''12abc''] (Parsed Map.empty)
      \<lparr>req_param_id := Some (PString ''12abc'')\<rparr>) \<lparr>rows = [], next_id = 1\<rparr> =
     Next (new_req GET [''users'', ''12abc''] (Parsed Map.empty)
      \<lparr>req_param_id := Some (PNumber (Finite 12))\<rparr>) \<and>
   validateId (new_req GET [''users'', ''3.9''] (Parsed Map.empty)
      \<lparr>req_param_id := Some (PString ''3.9'')\<rparr>) \<lparr>rows = [], next_id = 1\<rparr> =
     Next (new_req GET [''users'', ''3.9''] (Parsed Map.empty)
      \<lparr>req_param_id := Some (PNumber (Finite 3))\<rparr>) \<and>
   app GET [''users'', ''12abc''] (Parsed Map.empty)
     \<lparr>rows = [\<lparr>user_id = 12, user_name = ''Ann'', user_email = ''ann@x.org'', user_age = None\<rparr>],
      next_id = 13\<rparr> =
     (json_reply 200
       (UserBody \<lparr>user_id = 12, user_name = ''Ann'', user_email = ''ann@x.org'', user_age = None\<rparr>),
      \<lparr>rows = [\<lparr>user_id = 12, user_name = ''Ann'', user_email = ''ann@x.org'', user_age = None\<rparr>],
       next_id = 13\<rparr>)"
proof -
  let ?s = "\<lparr>rows = [\<lparr>user_id = 12, user_name = ''Ann'', user_email = ''ann@x.org'', user_age = None\<rparr>],
      next_id = 13\<rparr>"
  have d12: "''12'' \<noteq> [] \<and> list_all is_decimal_digit ''12'' \<and> 1 \<le> decimal_value ''12''
      \<and> decimal_value ''12'' = 12 \<and> \<not> is_decimal_digit (hd ''abc'')"
    by code_simp
  have d3: "''3'' \<noteq> [] \<and> list_all is_decimal_digit ''3'' \<and> 1 \<le> decimal_value ''3''
      \<and> decimal_value ''3'' = 3 \<and> \<not> is_decimal_digit (hd ''.9'')"
    by code_simp
  have h: "answer (run_handlers (id_route_handlers GET)
             (parsed_req GET [''users'', ''12abc''] Map.empty (Some (PNumber (Finite 12)))) ?s) ?s =
      (json_reply 200
        (UserBody \<lparr>user_id = 12, user_name = ''Ann'', user_email = ''ann@x.org'', user_age = None\<rparr>), ?s)"
    by code_simp
  show ?thesis
    using parseInt_accepts_decimal_prefix [of "''12''" "''abc''" GET _ _ Map.empty]
      parseInt_accepts_decimal_prefix [of "''3''" "''.9''" GET] d12 d3
    by (simp add: h)
qed

text \<open>
  C10, as claimed, fails above \<open>2^53\<close>: the segment \<^verbatim>\<open>9007199254740993\<close> is a decimal
  numeral of that value, and \<open>validateId\<close> stores 9007199254740992, the nearest double.
\<close>

theorem big_id_is_rounded:
  "list_all is_decimal_digit ''9007199254740993'' \<and>
   decimal_value ''9007199254740993'' = 9007199254740993 \<and>
   validateId
     ((parsed_req GET [''users'', ''9007199254740993''] Map.empty None)
        \<lparr>req_param_id := Some (PString ''9007199254740993'')\<rparr>)
     \<lparr>rows = [], next_id = 1\<rparr> =
     Next ((parsed_req GET [''users'', ''9007199254740993''] Map.empty None)
        \<lparr>req_param_id := Some (PNumber (Finite 9007199254740992))\<rparr>)"
proof -
  have d: "list_all is_decimal_digit ''9007199254740993''"
    by (simp add: is_decimal_digit_def)
  have e: "decimal_value ''9007199254740993'' = 9007199254740993"
    by (simp add: decimal_value_def digit_of_digits)
  have p: "parseInt ''9007199254740993'' = Finite 9007199254740992" by code_simp
  have l: "\<not> less_than (Finite 9007199254740992) 1" by simp
  have v: "validateId
     ((parsed_req GET [''users'', ''9007199254740993''] Map.empty None)
        \<lparr>req_param_id := Some (PString ''9007199254740993'')\<rparr>)
     \<lparr>rows = [], next_id = 1\<rparr> =
     Next ((parsed_req GET [''users'', ''9007199254740993''] Map.empty None)
        \<lparr>req_param_id := Some (PNumber (Finite 9007199254740992))\<rparr>)"
    by (simp only: validateId_string p isNaN.simps l simp_thms if_False)
  from d e v show ?thesis by (intro conjI)
qed

section \<open>PATCH with no recognized field\<close>

text \<open>
  C6. A PATCH request with a valid id, one that \<open>validateId\<close> lets pass, whose body has
  none of \<^verbatim>\<open>name\<close>, \<^verbatim>\<open>email\<close>, \<^verbatim>\<open>age\<close> is answered 400 with
  \<^verbatim>\<open>{error: "No valid update data provided"}\<close>, and the store is as it was.
\<close>

theorem empty_patch_is_refused:
  assumes "seg \<noteq> []" and "\<not> isNaN (parseInt seg)" and "\<not> less_than (parseInt seg) 1"
    and "b ''name'' = None" and "b ''email'' = None" and "b ''age'' = None"
  shows "app PATCH [''users'', seg] (Parsed b) s =
           (json_reply 400 (ErrorBody ''No valid update data provided''), s)"
proof -
  have "patch_fields b = Go empty_data"
    using assms(4-6)
    by (simp add: patch_fields_def patch_name_def patch_email_def patch_age_def and_then_def)
  then have "patch_user (parsed_req PATCH [''users'', seg] b (Some (PNumber (parseInt seg)))) s =
      Done (json_reply 400 (ErrorBody ''No valid update data provided'')) s"
    by (simp add: patch_user_def parsed_req_def object_keys_def empty_data_def)
  then show ?thesis
    using app_id_route [OF assms(1), of PATCH b s] assms(2,3)
    by (simp add: id_route_handlers_def answer_def)
qed

theorem empty_patch_is_refused_witness:
  "''1'' \<noteq> [] \<and> \<not> isNaN (parseInt ''1'') \<and> \<not> less_than (parseInt ''1'') 1 \<and>
   (Map.empty :: body) ''name'' = None \<and> (Map.empty :: body) ''email'' = None \<and>
   (Map.empty :: body) ''age'' = None \<and>
   app PATCH [''users'', ''1''] (Parsed Map.empty)
     \<lparr>rows = [\<lparr>user_id = 1, user_name = ''Ann'', user_email = ''ann@x.org'', user_age = None\<rparr>],
      next_id = 2\<rparr> =
     (json_reply 400 (ErrorBody ''No valid update data provided''),
      \<lparr>rows = [\<lparr>user_id = 1, user_name = ''Ann'', user_email = ''ann@x.org'', user_age = None\<rparr>],
       next_id = 2\<rparr>)"
proof -
  have p: "parseInt ''1'' = Finite 1" by code_simp
  have a: "\<not> isNaN (parseInt ''1'')" and l: "\<not> less_than (parseInt ''1'') 1"
    by (simp_all add: p)
  show ?thesis
    using empty_patch_is_refused [OF _ a l, of Map.empty]
    by (simp add: p)
qed

section \<open>What the validators accept\<close>

lemma typeof_string: "typeof v = TString \<longleftrightarrow> (\<exists>x. v = Some (JStr x))"
  by (cases v rule: typeof.cases) simp_all

lemma typeof_number: "typeof v = TNumber \<longleftrightarrow> (\<exists>q. v = Some (JNum q))"
  by (cases v rule: typeof.cases) simp_all

lemma validateUserInput_Next:
  assumes "validateUserInput r s = Next r'"
  shows "\<exists>n e. req_body r ''name'' = Some (JStr n) \<and> req_body r ''email'' = Some (JStr e)
           \<and> re_match email_re e
           \<and> (req_body r ''age'' = None \<or>
                (\<exists>q. req_body r ''age'' = Some (JNum q) \<and> 0 \<le> q \<and> isInteger q))
           \<and> r' = r\<lparr>req_body := (req_body r)
                  (''name'' \<mapsto> JStr (trim n), ''email'' \<mapsto> JStr (trim (toLowerCase e)))\<rparr>"
proof -
  let ?name = "req_body r ''name''" and ?email = "req_body r ''email''" and ?age = "req_body r ''age''"
  from assms have n: "typeof ?name = TString" and e: "typeof ?email = TString"
    and m: "re_match email_re (str_of ?email)"
    and a: "?age = None \<or> (typeof ?age = TNumber \<and> 0 \<le> num_of ?age \<and> isInteger (num_of ?age))"
    and r': "r' = r\<lparr>req_body := (req_body r)(''name'' \<mapsto> JStr (trim (str_of ?name)),
             ''email'' \<mapsto> JStr (trim (toLowerCase (str_of ?email))))\<rparr>"
    by (auto simp: validateUserInput_def Let_def split: if_splits)
  from n obtain x where x: "?name = Some (JStr x)" by (auto simp: typeof_string)
  from e obtain y where y: "?email = Some (JStr y)" by (auto simp: typeof_string)
  from a have "?age = None \<or> (\<exists>q. ?age = Some (JNum q) \<and> 0 \<le> q \<and> isInteger q)"
    by (auto simp: typeof_number)
  with x y m r' show ?thesis by auto
qed

lemma validateUserInput_Done:
  "validateUserInput r s = Done resp s' \<Longrightarrow> status resp = 400 \<and> s' = s"
  by (auto simp: validateUserInput_def Let_def json_reply_def split: if_splits)

text \<open>
  A string that matches the email pattern has no white space, so trimming it, before or
  after lower-casing, changes nothing.
\<close>

lemma re_match_atoms:
  assumes "re_match ps e"
    and "\<And>a c. One a \<in> set ps \<or> Plus a \<in> set ps \<Longrightarrow> atom_ok a c \<Longrightarrow> Q c"
  shows "list_all Q e"
  using assms
proof (induction ps e rule: re_match.induct)
  case (1 s)
  then show ?case by simp
next
  case (2 a ps)
  then show ?case by simp
next
  case (3 a ps c cs)
  then show ?case by auto
next
  case (4 a ps)
  then show ?case by simp
next
  case (5 a ps c cs)
  from "5.prems"(1) have ok: "atom_ok a c" and rest: "re_match (Plus a # ps) cs \<or> re_match ps cs"
    by simp_all
  have "Q c" using ok "5.prems"(2) by auto
  moreover have "list_all Q cs"
    using rest
  proof
    assume "re_match (Plus a # ps) cs"
    then show ?thesis using "5.IH"(1) "5.prems"(2) by blast
  next
    assume "re_match ps cs"
    then show ?thesis using "5.IH"(2) "5.prems"(2) by auto
  qed
  ultimately show ?case by simp
qed

lemma email_re_no_space:
  assumes "re_match email_re e"
  shows "list_all (\<lambda>c. \<not> is_space c) e"
proof (rule re_match_atoms [OF assms])
  fix a c
  assume "One a \<in> set email_re \<or> Plus a \<in> set email_re" and "atom_ok a c"
  then show "\<not> is_space c"
    by (auto simp: email_re_def is_space_def)
qed

lemma dropWhile_none: "list_all (\<lambda>c. \<not> P c) xs \<Longrightarrow> dropWhile P xs = xs"
  by (cases xs) auto

lemma trim_no_space: "list_all (\<lambda>c. \<not> is_space c) e \<Longrightarrow> trim e = e"
  by (simp add: trim_def dropWhile_none list_all_iff)

lemma space_chars:
  "char_of (9::nat) = CHR 0x09" "char_of (10::nat) = CHR 0x0A" "char_of (11::nat) = CHR 0x0B"
  "char_of (12::nat) = CHR 0x0C" "char_of (13::nat) = CHR 0x0D" "char_of (32::nat) = CHR 0x20"
  "char_of (160::nat) = CHR 0xA0"
  by code_simp+

lemma is_space_code: "is_space c \<longleftrightarrow> (of_char c :: nat) \<in> {9, 10, 11, 12, 13, 32, 160}"
proof
  assume "is_space c"
  then show "(of_char c :: nat) \<in> {9, 10, 11, 12, 13, 32, 160}"
    by (auto simp: is_space_def)
next
  assume "(of_char c :: nat) \<in> {9, 10, 11, 12, 13, 32, 160}"
  then have "char_of (of_char c :: nat) \<in> char_of ` {9, 10, 11, 12, 13, 32, 160 :: nat}"
    by (rule imageI)
  then show "is_space c"
    by (simp add: is_space_def space_chars)
qed

lemma lower_char_space: "is_space (lower_char c) = is_space c"
proof (cases "lower_char c = c")
  case True
  then show ?thesis by simp
next
  case False
  then have n: "(65 \<le> (of_char c :: nat) \<and> (of_char c :: nat) \<le> 90) \<or>
      (192 \<le> (of_char c :: nat) \<and> (of_char c :: nat) \<le> 222)"
    and l: "lower_char c = char_of ((of_char c :: nat) + 32)"
    by (auto simp: lower_char_def Let_def split: if_splits)
  from n have "((of_char c :: nat) + 32) mod 256 = of_char c + 32" by auto
  then have "(of_char (lower_char c) :: nat) = of_char c + 32"
    by (simp add: l)
  with n show ?thesis by (auto simp: is_space_code)
qed

lemma toLowerCase_no_space:
  "list_all (\<lambda>c. \<not> is_space c) e \<Longrightarrow> list_all (\<lambda>c. \<not> is_space c) (toLowerCase e)"
  by (simp add: toLowerCase_def list_all_iff lower_char_space)

lemma email_trim_is_identity:
  "re_match email_re e \<Longrightarrow> trim (toLowerCase e) = toLowerCase e"
  by (simp add: email_re_no_space toLowerCase_no_space trim_no_space)

lemma email_re_same: "patch_email_re = email_re"
  by (simp add: patch_email_re_def email_re_def)

lemma patch_fields_Return: "patch_fields b = Return resp \<Longrightarrow> status resp = 400"
  by (auto simp: patch_fields_def and_then_def patch_name_def patch_email_def patch_age_def
        json_reply_def split: attempt.splits if_splits)

lemma patch_fields_email:
  assumes "patch_fields b = Go d" and "b ''email'' = Some v"
  shows "\<exists>e. v = JStr e \<and> re_match email_re e \<and> d_email d = Some (JStr (trim (toLowerCase e)))"
proof -
  from assms(1) obtain u1 u2 where 1: "patch_name (b ''name'') empty_data = Go u1"
    and 2: "patch_email (b ''email'') u1 = Go u2" and 3: "patch_age (b ''age'') u2 = Go d"
    by (auto simp: patch_fields_def and_then_def split: attempt.splits)
  from 2 assms(2) have ty: "typeof (Some v) = TString" and m: "re_match email_re (str_of (Some v))"
    and u2: "d_email u2 = Some (JStr (trim (toLowerCase (str_of (Some v)))))"
    by (auto simp: patch_email_def email_re_same split: if_splits)
  from ty obtain e where e: "v = JStr e" by (auto simp: typeof_string)
  from 3 have "d_email d = d_email u2"
    by (auto simp: patch_age_def split: if_splits)
  with e m u2 show ?thesis by simp
qed

section \<open>What the store operations return\<close>

lemma string_arg_Given: "string_arg v = Given x \<longleftrightarrow> v = Some (JStr x)"
  by (cases v rule: string_arg.cases) simp_all

lemma find_in_set: "find P xs = Some x \<Longrightarrow> x \<in> set xs \<and> P x"
  by (induction xs) (auto split: if_splits)

lemma prisma_create_Inr:
  assumes "prisma_create d s = Inr (u, s')"
  shows "\<exists>n e. d_name d = Some (JStr n) \<and> d_email d = Some (JStr e)
           \<and> \<not> email_taken e (rows s)
           \<and> user_id u = next_id s \<and> user_name u = n \<and> user_email u = e
           \<and> s' = s\<lparr>rows := rows s @ [u], next_id := next_id s + 1\<rparr>"
  using assms
  by (auto simp: prisma_create_def Let_def string_arg_Given split: arg.splits if_splits)

lemma prisma_update_Inr:
  assumes "prisma_update i d s = Inr (u, s')"
  shows "(\<forall>x. d_email d = Some (JStr x) \<longrightarrow> user_email u = x) \<and> u \<in> set (rows s')"
proof -
  from assms obtain u0 where f: "find (\<lambda>u. user_id u = i) (rows s) = Some u0"
    and s': "s' = s\<lparr>rows := map (\<lambda>v. if user_id v = i then u else v) (rows s)\<rparr>"
    and e: "user_email u = (case string_arg (d_email d) of Given x \<Rightarrow> x | _ \<Rightarrow> user_email u0)"
    by (auto simp: prisma_update_def Let_def split: option.splits if_splits)
  from f have "u0 \<in> set (rows s)" and "user_id u0 = i" by (auto dest: find_in_set)
  then have "(\<lambda>v. if user_id v = i then u else v) u0 \<in> set (rows s')"
    unfolding s' by (simp del: if_split)
  with \<open>user_id u0 = i\<close> have "u \<in> set (rows s')" by simp
  with e show ?thesis by auto
qed

lemma prisma_update_age:
  assumes "prisma_update i d s = Inr (u, s')" and "d_age d = None"
  shows "\<exists>u0. find (\<lambda>u. user_id u = i) (rows s) = Some u0 \<and> user_age u = user_age u0"
  using assms
  by (auto simp: prisma_update_def Let_def split: option.splits if_splits)


lemma find_filter_none: "find (\<lambda>u. f u = i) (filter (\<lambda>v. f v \<noteq> i) xs) = None"
  by (induction xs) auto

section \<open>Successful requests\<close>

lemma answer_success:
  assumes "answer res s = (resp, s')" and "status resp = 200 \<or> status resp = 201"
  shows "res = Done resp s'"
  using assms by (cases res) (auto simp: answer_def json_reply_def)

lemma validated_chain_Done:
  assumes "run_handlers [validateUserInput, h] q s = Done resp s'"
    and "status resp = 200 \<or> status resp = 201"
  shows "\<exists>r'. validateUserInput q s = Next r' \<and> h r' s = Done resp s'"
proof (cases "validateUserInput q s")
  case (Done x1 x2)
  with assms(1) have "x1 = resp" by simp
  with Done assms(2) show ?thesis by (auto dest: validateUserInput_Done)
next
  case (Next r')
  with assms(1) show ?thesis by (auto split: result.splits)
next
  case (NextErr e)
  with assms(1) show ?thesis by simp
qed

lemma id_route_handlers_simps:
  "id_route_handlers GET = [get_user]"
  "id_route_handlers PUT = [validateUserInput, put_user]"
  "id_route_handlers PATCH = [patch_user]"
  "id_route_handlers DELETE = [delete_user]"
  by (simp_all add: id_route_handlers_def)

lemma post_users_success:
  assumes "post_users r s = Done resp s'" and "status resp = 200 \<or> status resp = 201"
  shows "\<exists>u. prisma_create \<lparr>d_name = req_body r ''name'', d_email = req_body r ''email'',
                  d_age = req_body r ''age''\<rparr> s = Inr (u, s')
           \<and> resp = json_reply 201 (UserBody u)"
  using assms
  by (auto simp: post_users_def Let_def email_exists_def json_reply_def
        split: sum.splits if_splits)

lemma put_user_success:
  assumes "put_user r s = Done resp s'" and "status resp = 200 \<or> status resp = 201"
  shows "\<exists>i u. where_id (req_param_id r) = Inr i
           \<and> prisma_update i \<lparr>d_name = req_body r ''name'', d_email = req_body r ''email'',
                  d_age = req_body r ''age''\<rparr> s = Inr (u, s')
           \<and> resp = json_reply 200 (UserBody u)"
  using assms
  by (auto simp: put_user_def Let_def email_exists_def user_not_found_def json_reply_def
        split: sum.splits if_splits)

lemma patch_user_success:
  assumes "patch_user r s = Done resp s'" and "status resp = 200 \<or> status resp = 201"
  shows "\<exists>i u d. patch_fields (req_body r) = Go d \<and> where_id (req_param_id r) = Inr i
           \<and> prisma_update i d s = Inr (u, s')
           \<and> resp = json_reply 200 (UserBody u)"
  using assms
  by (auto simp: patch_user_def email_exists_def user_not_found_def json_reply_def
        dest: patch_fields_Return split: attempt.splits sum.splits if_splits)

lemma app_empty_segment:
  "app m [''users'', []] (Parsed b) s = (json_reply 404 (ErrorBody ''Route not found''), s)"
  by (simp add: app_unfold)

lemma app_id_route_success:
  assumes "app m [''users'', seg] (Parsed b) s = (resp, s')"
    and "status resp = 200 \<or> status resp = 201" and "m \<noteq> POST"
  shows "\<not> isNaN (parseInt seg) \<and> \<not> less_than (parseInt seg) 1 \<and>
           run_handlers (id_route_handlers m)
             (parsed_req m [''users'', seg] b (Some (PNumber (parseInt seg)))) s = Done resp s'"
proof (cases "seg = []")
  case True
  with assms(1,2) show ?thesis
    by (auto simp: app_empty_segment json_reply_def)
next
  case False
  show ?thesis
  proof (cases "isNaN (parseInt seg) \<or> less_than (parseInt seg) 1")
    case True
    with assms(1,2) app_id_route [OF False assms(3), of b s] show ?thesis
      by (auto simp: json_reply_def)
  next
    case ok: False
    with assms(1) app_id_route [OF \<open>seg \<noteq> []\<close> assms(3), of b s]
    have "answer (run_handlers (id_route_handlers m)
            (parsed_req m [''users'', seg] b (Some (PNumber (parseInt seg)))) s) s = (resp, s')"
      by simp
    then have "run_handlers (id_route_handlers m)
            (parsed_req m [''users'', seg] b (Some (PNumber (parseInt seg)))) s = Done resp s'"
      using assms(2) by (rule answer_success)
    with ok show ?thesis by simp
  qed
qed

lemma where_id_Inr: "where_id p = Inr i \<Longrightarrow> p = Some (PNumber (Finite i))"
  by (cases p rule: where_id.cases) simp_all

lemma post_stores_email:
  assumes "app POST [''users''] (Parsed b) s = (resp, s')"
    and "status resp = 200 \<or> status resp = 201"
  shows "\<exists>n e u. b ''name'' = Some (JStr n) \<and> b ''email'' = Some (JStr e) \<and> re_match email_re e
           \<and> resp = json_reply 201 (UserBody u)
           \<and> s' = s\<lparr>rows := rows s @ [u], next_id := next_id s + 1\<rparr>
           \<and> \<not> email_taken (trim (toLowerCase e)) (rows s)
           \<and> user_id u = next_id s
           \<and> user_name u = trim n \<and> user_email u = trim (toLowerCase e)"
proof -
  let ?q = "parsed_req POST [''users''] b None"
  from assms(1) have "answer (run_handlers [validateUserInput, post_users] ?q s) s = (resp, s')"
    by (simp only: app_post_users)
  then have d: "run_handlers [validateUserInput, post_users] ?q s = Done resp s'"
    using assms(2) by (rule answer_success)
  from validated_chain_Done [OF d assms(2)] obtain r' where
    v: "validateUserInput ?q s = Next r'" and p: "post_users r' s = Done resp s'"
    by blast
  from validateUserInput_Next [OF v] obtain n e where
    b: "b ''name'' = Some (JStr n)" "b ''email'' = Some (JStr e)" "re_match email_re e"
    and r': "req_body r' = b(''name'' \<mapsto> JStr (trim n), ''email'' \<mapsto> JStr (trim (toLowerCase e)))"
    by (auto simp: parsed_req_def)
  from post_users_success [OF p assms(2)] obtain u where
    c: "prisma_create \<lparr>d_name = req_body r' ''name'', d_email = req_body r' ''email'',
          d_age = req_body r' ''age''\<rparr> s = Inr (u, s')"
    and resp: "resp = json_reply 201 (UserBody u)"
    by auto
  from prisma_create_Inr [OF c] r' have
    "\<not> email_taken (trim (toLowerCase e)) (rows s)" "user_id u = next_id s"
    "user_name u = trim n" "user_email u = trim (toLowerCase e)"
    "s' = s\<lparr>rows := rows s @ [u], next_id := next_id s + 1\<rparr>"
    by auto
  with b resp show ?thesis by auto
qed

lemma put_stores_email:
  assumes "app PUT [''users'', seg] (Parsed b) s = (resp, s')"
    and "status resp = 200 \<or> status resp = 201"
  shows "\<exists>e u. b ''email'' = Some (JStr e) \<and> re_match email_re e
           \<and> resp = json_reply 200 (UserBody u) \<and> u \<in> set (rows s')
           \<and> user_email u = trim (toLowerCase e)"
proof -
  have "PUT \<noteq> POST" by simp
  from app_id_route_success [OF assms this] obtain n where
    d: "run_handlers [validateUserInput, put_user]
       (parsed_req PUT [''users'', seg] b (Some (PNumber n))) s = Done resp s'"
    unfolding id_route_handlers_simps by blast
  from validated_chain_Done [OF d assms(2)] obtain r' where
    v: "validateUserInput (parsed_req PUT [''users'', seg] b (Some (PNumber n))) s = Next r'"
    and p: "put_user r' s = Done resp s'"
    by blast
  from validateUserInput_Next [OF v] obtain x e where
    b: "b ''email'' = Some (JStr e)" "re_match email_re e"
    and r': "req_body r' = b(''name'' \<mapsto> JStr (trim x), ''email'' \<mapsto> JStr (trim (toLowerCase e)))"
    by (auto simp: parsed_req_def)
  from put_user_success [OF p assms(2)] obtain i u where
    c: "prisma_update i \<lparr>d_name = req_body r' ''name'', d_email = req_body r' ''email'',
          d_age = req_body r' ''age''\<rparr> s = Inr (u, s')"
    and resp: "resp = json_reply 200 (UserBody u)"
    by auto
  from prisma_update_Inr [OF c] r' have "user_email u = trim (toLowerCase e)" "u \<in> set (rows s')"
    by auto
  with b resp show ?thesis by auto
qed

lemma patch_stores_email:
  assumes "app PATCH [''users'', seg] (Parsed b) s = (resp, s')"
    and "status resp = 200 \<or> status resp = 201"
    and "b ''email'' = Some v"
  shows "\<exists>e u. v = JStr e \<and> re_match email_re e
           \<and> resp = json_reply 200 (UserBody u) \<and> u \<in> set (rows s')
           \<and> user_email u = trim (toLowerCase e)"
proof -
  have "PATCH \<noteq> POST" by simp
  from app_id_route_success [OF assms(1,2) this] obtain n where
    "run_handlers [patch_user]
       (parsed_req PATCH [''users'', seg] b (Some (PNumber n))) s = Done resp s'"
    unfolding id_route_handlers_simps by blast
  then have p: "patch_user (parsed_req PATCH [''users'', seg] b (Some (PNumber n))) s = Done resp s'"
    by (auto split: result.splits)
  from patch_user_success [OF p assms(2)] obtain i u d where
    f: "patch_fields b = Go d" and c: "prisma_update i d s = Inr (u, s')"
    and resp: "resp = json_reply 200 (UserBody u)"
    by (auto simp: parsed_req_def)
  from patch_fields_email [OF f assms(3)] obtain e where
    e: "v = JStr e" "re_match email_re e" "d_email d = Some (JStr (trim (toLowerCase e)))"
    by auto
  from prisma_update_Inr [OF c] e(3) have "user_email u = trim (toLowerCase e)" "u \<in> set (rows s')"
    by auto
  with e resp show ?thesis by auto
qed

section \<open>The stored email\<close>

text \<open>
  Whenever a create (POST) or an update (PUT, PATCH) that supplies an email succeeds,
  the email is a string that matches the pattern, and the user in the response, which
  is a row of the store afterwards, has as its email the input lower-cased and trimmed.
  The pattern is tested first and admits no white space, so the \<^verbatim>\<open>trim()\<close> of lines 65
  and 151 never finds anything to remove.
\<close>

lemma stored_email_is_normalized:
  assumes "(m = POST \<and> p = [''users'']) \<or> (m = PUT \<and> p = [''users'', seg])
             \<or> (m = PATCH \<and> p = [''users'', seg])"
    and "app m p (Parsed b) s = (resp, s')"
    and "status resp = 200 \<or> status resp = 201"
    and "b ''email'' = Some v"
  shows "\<exists>e u. v = JStr e \<and> re_match email_re e \<and> payload resp = UserBody u
           \<and> u \<in> set (rows s') \<and> user_email u = trim (toLowerCase e)
           \<and> trim (toLowerCase e) = toLowerCase e"
proof -
  have "\<exists>e u. v = JStr e \<and> re_match email_re e \<and> payload resp = UserBody u
           \<and> u \<in> set (rows s') \<and> user_email u = trim (toLowerCase e)"
    using assms(1)
  proof (elim disjE conjE)
    assume "m = POST" "p = [''users'']"
    with assms(2) have "app POST [''users''] (Parsed b) s = (resp, s')" by simp
    from post_stores_email [OF this assms(3)] assms(4) show ?thesis
      by (auto simp: json_reply_def)
  next
    assume "m = PUT" "p = [''users'', seg]"
    with assms(2) have "app PUT [''users'', seg] (Parsed b) s = (resp, s')" by simp
    from put_stores_email [OF this assms(3)] assms(4) show ?thesis
      by (auto simp: json_reply_def)
  next
    assume "m = PATCH" "p = [''users'', seg]"
    with assms(2) have "app PATCH [''users'', seg] (Parsed b) s = (resp, s')" by simp
    from patch_stores_email [OF this assms(3,4)] show ?thesis
      by (auto simp: json_reply_def)
  qed
  then show ?thesis by (auto simp: email_trim_is_identity)
qed

lemma stored_email_example:
  "app POST [''users''] (Parsed [''name'' \<mapsto> JStr ''A'', ''email'' \<mapsto> JStr ''A@B.COM''])
      \<lparr>rows = [], next_id = 1\<rparr> =
     (json_reply 201
        (UserBody \<lparr>user_id = 1, user_name = ''A'', user_email = ''a@b.com'', user_age = None\<rparr>),
      \<lparr>rows = [\<lparr>user_id = 1, user_name = ''A'', user_email = ''a@b.com'', user_age = None\<rparr>],
       next_id = 2\<rparr>) \<and>
   (\<exists>e u. JStr ''A@B.COM'' = JStr e \<and> re_match email_re e
      \<and> UserBody \<lparr>user_id = 1, user_name = ''A'', user_email = ''a@b.com'', user_age = None\<rparr>
          = UserBody u
      \<and> u \<in> set [\<lparr>user_id = 1, user_name = ''A'', user_email = ''a@b.com'', user_age = None\<rparr>]
      \<and> user_email u = trim (toLowerCase e) \<and> trim (toLowerCase e) = toLowerCase e)"
proof -
  let ?b = "[''name'' \<mapsto> JStr ''A'', ''email'' \<mapsto> JStr ''A@B.COM'']"
  let ?u = "\<lparr>user_id = 1, user_name = ''A'', user_email = ''a@b.com'', user_age = None\<rparr>"
  have h: "app POST [''users''] (Parsed ?b) \<lparr>rows = [], next_id = 1\<rparr> =
      (json_reply 201 (UserBody ?u), \<lparr>rows = [?u], next_id = 2\<rparr>)"
    by code_simp
  have st: "status (json_reply 201 (UserBody ?u)) = 200 \<or> status (json_reply 201 (UserBody ?u)) = 201"
    by (simp add: json_reply_def)
  have e: "?b ''email'' = Some (JStr ''A@B.COM'')" by simp
  show ?thesis
    using stored_email_is_normalized [OF _ h st e, of "[]"] h
    by (simp add: json_reply_def)
qed

text \<open>
  The name, by contrast, is trimmed before it is tested (line 51): a name with a blank
  on either side is accepted and stored without the blanks.
\<close>

lemma padded_name_is_accepted:
  "app POST [''users''] (Parsed [''name'' \<mapsto> JStr '' A '', ''email'' \<mapsto> JStr ''a@b.com''])
      \<lparr>rows = [], next_id = 1\<rparr> =
     (\<lparr>status = 201,
       payload = UserBody
         \<lparr>user_id = 1, user_name = ''A'', user_email = ''a@b.com'', user_age = None\<rparr>\<rparr>,
      \<lparr>rows = [\<lparr>user_id = 1, user_name = ''A'', user_email = ''a@b.com'', user_age = None\<rparr>],
       next_id = 2\<rparr>)"
  by code_simp

text \<open>
  C2. The claim: the stored email is the input lower-cased and trimmed whatever the
  surrounding white space, and the input \<^verbatim>\<open>" A@B.COM "\<close> is accepted and stored as
  \<^verbatim>\<open>a@b.com\<close>. The code: POST /users with the email \<^verbatim>\<open>" A@B.COM "\<close>, a space on either
  side, is answered 400 with \<^verbatim>\<open>{error: "Valid email is required"}\<close>, and nothing is
  stored.
\<close>

theorem padded_email_is_refused:
  "app POST [''users''] (Parsed [''name'' \<mapsto> JStr ''A'', ''email'' \<mapsto> JStr '' A@B.COM ''])
      \<lparr>rows = [], next_id = 1\<rparr> =
     (\<lparr>status = 400, payload = ErrorBody ''Valid email is required''\<rparr>,
      \<lparr>rows = [], next_id = 1\<rparr>)"
  by code_simp

section \<open>Full update without an age\<close>

text \<open>
  A PUT that succeeds on a body without \<^verbatim>\<open>age\<close> leaves the stored age as it was:
  the handler passes \<^verbatim>\<open>age: undefined\<close> to \<^verbatim>\<open>prisma.user.update\<close>, which does not
  touch a field that is \<^verbatim>\<open>undefined\<close>.
\<close>

lemma put_leaves_age_when_absent:
  assumes "app PUT [''users'', seg] (Parsed b) s = (resp, s')"
    and "status resp = 200" and "b ''age'' = None"
  shows "\<exists>n u0 u. parseInt seg = Finite n \<and> find (\<lambda>u. user_id u = n) (rows s) = Some u0
           \<and> resp = json_reply 200 (UserBody u) \<and> user_age u = user_age u0"
proof -
  from assms(2) have st: "status resp = 200 \<or> status resp = 201" by simp
  have "PUT \<noteq> POST" by simp
  from app_id_route_success [OF assms(1) st this] have
    d: "run_handlers [validateUserInput, put_user]
       (parsed_req PUT [''users'', seg] b (Some (PNumber (parseInt seg)))) s = Done resp s'"
    unfolding id_route_handlers_simps by blast
  from validated_chain_Done [OF d st] obtain r' where
    v: "validateUserInput (parsed_req PUT [''users'', seg] b (Some (PNumber (parseInt seg)))) s
          = Next r'"
    and p: "put_user r' s = Done resp s'"
    by blast
  from validateUserInput_Next [OF v] assms(3) have
    age: "req_body r' ''age'' = None" and prm: "req_param_id r' = Some (PNumber (parseInt seg))"
    by (auto simp: parsed_req_def)
  from put_user_success [OF p st] obtain i u where
    w: "where_id (req_param_id r') = Inr i"
    and c: "prisma_update i \<lparr>d_name = req_body r' ''name'', d_email = req_body r' ''email'',
          d_age = req_body r' ''age''\<rparr> s = Inr (u, s')"
    and resp: "resp = json_reply 200 (UserBody u)"
    by auto
  from where_id_Inr [OF w] prm have n: "parseInt seg = Finite i" by simp
  from prisma_update_age [OF c] age obtain u0 where
    "find (\<lambda>u. user_id u = i) (rows s) = Some u0" "user_age u = user_age u0"
    by auto
  with n resp show ?thesis by blast
qed

text \<open>
  C3. The claim: a valid PUT overwrites name, email and age, and with no \<^verbatim>\<open>age\<close> in the
  body the stored age is afterwards not set. The code: PUT /users/1 with the body
  \<^verbatim>\<open>{"name": "Bob", "email": "bob@x.org"}\<close>, on a user whose age is 30, answers 200 and
  the age is still 30.
\<close>

theorem put_without_age_keeps_age:
  "app PUT [''users'', ''1'']
      (Parsed [''name'' \<mapsto> JStr ''Bob'', ''email'' \<mapsto> JStr ''bob@x.org''])
      \<lparr>rows = [\<lparr>user_id = 1, user_name = ''Ann'', user_email = ''ann@x.org'', user_age = Some 30\<rparr>],
       next_id = 2\<rparr> =
     (\<lparr>status = 200,
       payload = UserBody
         \<lparr>user_id = 1, user_name = ''Bob'', user_email = ''bob@x.org'', user_age = Some 30\<rparr>\<rparr>,
      \<lparr>rows = [\<lparr>user_id = 1, user_name = ''Bob'', user_email = ''bob@x.org'', user_age = Some 30\<rparr>],
       next_id = 2\<rparr>)"
  by code_simp

section \<open>Partial-update validation against full-input validation\<close>

lemma trim_Nil: "trim [] = []"
  by (simp add: trim_def)

lemma name_guard:
  "falsy v \<Longrightarrow> typeof v = TString \<Longrightarrow> trim (str_of v) = []"
  by (cases v rule: typeof.cases) (auto simp: trim_Nil)

lemma placeholder_facts:
  "trim ''x'' = ''x''" "re_match email_re ''x@y.z''"
  by code_simp+

lemma string_neq [simp]: "''name'' \<noteq> ''email''" "''email'' \<noteq> ''name''"
  "''age'' \<noteq> ''name''" "''age'' \<noteq> ''email''" "''name'' \<noteq> ''age''" "''email'' \<noteq> ''age''"
  by simp_all

lemma patch_fields_unfold:
  "patch_fields b =
     (if b ''name'' \<noteq> None \<and>
         (typeof (b ''name'') \<noteq> TString \<or> length (trim (str_of (b ''name''))) = 0)
      then Return (json_reply 400 (ErrorBody ''Valid name is required''))
      else if b ''email'' \<noteq> None \<and> falsy (b ''email'')
      then Return (json_reply 400 (ErrorBody ''Valid email is required''))
      else if b ''email'' \<noteq> None \<and> typeof (b ''email'') \<noteq> TString
      then Throw (type_error ''email.match is not a function'')
      else if b ''email'' \<noteq> None \<and> \<not> re_match email_re (str_of (b ''email''))
      then Return (json_reply 400 (ErrorBody ''Valid email is required''))
      else if b ''age'' \<noteq> None \<and>
              (typeof (b ''age'') \<noteq> TNumber \<or> num_of (b ''age'') < 0
                 \<or> \<not> isInteger (num_of (b ''age'')))
      then Return (json_reply 400 (ErrorBody ''Age must be a positive integer''))
      else Go \<lparr>d_name = (if b ''name'' = None then None
                           else Some (JStr (trim (str_of (b ''name''))))),
               d_email = (if b ''email'' = None then None
                           else Some (JStr (trim (toLowerCase (str_of (b ''email'')))))),
               d_age = b ''age''\<rparr>)"
  by (auto simp: patch_fields_def and_then_def patch_name_def patch_email_def patch_age_def
        empty_data_def email_re_same)

lemma full_validation_restricted_unfold:
  "full_validation_restricted r s =
     (let b = req_body r in
      if b ''name'' \<noteq> None \<and>
         (typeof (b ''name'') \<noteq> TString \<or> length (trim (str_of (b ''name''))) = 0)
      then Return (json_reply 400 (ErrorBody ''Valid name is required''))
      else if b ''email'' \<noteq> None \<and> falsy (b ''email'')
      then Return (json_reply 400 (ErrorBody ''Valid email is required''))
      else if b ''email'' \<noteq> None \<and> typeof (b ''email'') \<noteq> TString
      then Throw (type_error ''email.match is not a function'')
      else if b ''email'' \<noteq> None \<and> \<not> re_match email_re (str_of (b ''email''))
      then Return (json_reply 400 (ErrorBody ''Valid email is required''))
      else if b ''age'' \<noteq> None \<and>
              (typeof (b ''age'') \<noteq> TNumber \<or> num_of (b ''age'') < 0
                 \<or> \<not> isInteger (num_of (b ''age'')))
      then Return (json_reply 400 (ErrorBody ''Age must be a positive integer''))
      else Go \<lparr>d_name = (if b ''name'' = None then None
                           else Some (JStr (trim (str_of (b ''name''))))),
               d_email = (if b ''email'' = None then None
                           else Some (JStr (trim (toLowerCase (str_of (b ''email'')))))),
               d_age = b ''age''\<rparr>)"
proof (cases "req_body r ''name''")
  case n: None
  show ?thesis
  proof (cases "req_body r ''email''")
    case None
    with n show ?thesis
      by (simp add: full_validation_restricted_def validateUserInput_def Let_def
            with_placeholders_def placeholder_facts)
  next
    case (Some e)
    with n show ?thesis
      by (simp add: full_validation_restricted_def validateUserInput_def Let_def
            with_placeholders_def placeholder_facts)
  qed
next
  case n: (Some v)
  show ?thesis
  proof (cases "req_body r ''email''")
    case None
    with n show ?thesis
      by (auto simp: full_validation_restricted_def validateUserInput_def Let_def
            with_placeholders_def placeholder_facts dest: name_guard)
  next
    case (Some e)
    with n show ?thesis
      by (auto simp: full_validation_restricted_def validateUserInput_def Let_def
            with_placeholders_def placeholder_facts dest: name_guard)
  qed
qed

text \<open>
  C5. The three blocks of the PATCH handler give, on every body, the result of the
  full-input validator restricted to the supplied fields: the same refusal (or the same
  thrown error) in the same order, and on success the same values, that is the name
  trimmed, the email lower-cased and trimmed, and the age as it came.
\<close>

theorem partial_validation_refines_full:
  "patch_fields (req_body r) = full_validation_restricted r s \<and>
   (\<forall>d. patch_fields (req_body r) = Go d \<longrightarrow>
      (req_body r ''name'' \<noteq> None \<longrightarrow>
         d_name d = Some (JStr (trim (str_of (req_body r ''name''))))) \<and>
      (req_body r ''email'' \<noteq> None \<longrightarrow>
         d_email d = Some (JStr (trim (toLowerCase (str_of (req_body r ''email'')))))) \<and>
      d_age d = req_body r ''age'')"
proof
  show "patch_fields (req_body r) = full_validation_restricted r s"
    by (simp only: patch_fields_unfold full_validation_restricted_unfold Let_def)
next
  show "\<forall>d. patch_fields (req_body r) = Go d \<longrightarrow>
      (req_body r ''name'' \<noteq> None \<longrightarrow>
         d_name d = Some (JStr (trim (str_of (req_body r ''name''))))) \<and>
      (req_body r ''email'' \<noteq> None \<longrightarrow>
         d_email d = Some (JStr (trim (toLowerCase (str_of (req_body r ''email'')))))) \<and>
      d_age d = req_body r ''age''"
    by (auto simp: patch_fields_unfold split: if_splits)
qed

theorem partial_validation_refines_full_witness:
  "patch_fields [''email'' \<mapsto> JStr ''A@B.COM'', ''age'' \<mapsto> JNum 30] =
     Go \<lparr>d_name = None, d_email = Some (JStr ''a@b.com''), d_age = Some (JNum 30)\<rparr> \<and>
   full_validation_restricted
     (parsed_req PATCH [''users'', ''1''] [''email'' \<mapsto> JStr ''A@B.COM'', ''age'' \<mapsto> JNum 30]
        (Some (PNumber (Finite 1))))
     \<lparr>rows = [], next_id = 1\<rparr> =
     Go \<lparr>d_name = None, d_email = Some (JStr ''a@b.com''), d_age = Some (JNum 30)\<rparr>"
proof -
  let ?b = "[''email'' \<mapsto> JStr ''A@B.COM'', ''age'' \<mapsto> JNum 30]"
  have p: "patch_fields ?b =
      Go \<lparr>d_name = None, d_email = Some (JStr ''a@b.com''), d_age = Some (JNum 30)\<rparr>"
    by code_simp
  have b: "req_body (parsed_req PATCH [''users'', ''1''] ?b (Some (PNumber (Finite 1)))) = ?b"
    by (simp add: parsed_req_def)
  from partial_validation_refines_full
      [of "parsed_req PATCH [''users'', ''1''] ?b (Some (PNumber (Finite 1)))" "\<lparr>rows = [], next_id = 1\<rparr>"]
  have "patch_fields (req_body (parsed_req PATCH [''users'', ''1''] ?b (Some (PNumber (Finite 1))))) =
      full_validation_restricted (parsed_req PATCH [''users'', ''1''] ?b (Some (PNumber (Finite 1))))
        \<lparr>rows = [], next_id = 1\<rparr>"
    by (rule conjunct1)
  then have "full_validation_restricted (parsed_req PATCH [''users'', ''1''] ?b (Some (PNumber (Finite 1))))
        \<lparr>rows = [], next_id = 1\<rparr> = patch_fields ?b"
    by (simp only: b)
  with p show ?thesis by (simp only: simp_thms)
qed

section \<open>Two creates with one email\<close>



section \<open>Listing the users\<close>

text \<open>
  C8. For every store, GET /users answers 200 with a list that holds exactly the rows
  of the store, sorted ascending by id, and leaves the store as it was; the list is
  empty exactly when the store is.
\<close>

theorem list_users_sorted:
  "\<exists>us. app GET [''users''] (Parsed b) s = (json_reply 200 (UserList us), s)
      \<and> sorted (map user_id us) \<and> mset us = mset (rows s)
      \<and> (us = []) = (rows s = [])"
proof -
  let ?us = "prisma_findMany_by_id_asc s"
  have "app GET [''users''] (Parsed b) s = (json_reply 200 (UserList ?us), s)"
    by (simp add: app_get_users answer_def get_users_def)
  moreover have "sorted (map user_id ?us)"
    by (simp add: prisma_findMany_by_id_asc_def)
  moreover have m: "mset ?us = mset (rows s)"
    by (simp add: prisma_findMany_by_id_asc_def)
  moreover from m have "(?us = []) = (rows s = [])"
    by (metis mset_zero_iff)
  ultimately show ?thesis by blast
qed

theorem list_users_sorted_witness:
  "\<exists>us. app GET [''users''] (Parsed Map.empty)
       \<lparr>rows = [\<lparr>user_id = 2, user_name = ''Bob'', user_email = ''bob@x.org'', user_age = None\<rparr>,
                \<lparr>user_id = 1, user_name = ''Ann'', user_email = ''ann@x.org'', user_age = Some 30\<rparr>],
        next_id = 3\<rparr> =
     (json_reply 200 (UserList us),
      \<lparr>rows = [\<lparr>user_id = 2, user_name = ''Bob'', user_email = ''bob@x.org'', user_age = None\<rparr>,
               \<lparr>user_id = 1, user_name = ''Ann'', user_email = ''ann@x.org'', user_age = Some 30\<rparr>],
       next_id = 3\<rparr>)
      \<and> us = [\<lparr>user_id = 1, user_name = ''Ann'', user_email = ''ann@x.org'', user_age = Some 30\<rparr>,
               \<lparr>user_id = 2, user_name = ''Bob'', user_email = ''bob@x.org'', user_age = None\<rparr>]"
proof -
  let ?s = "\<lparr>rows = [\<lparr>user_id = 2, user_name = ''Bob'', user_email = ''bob@x.org'', user_age = None\<rparr>,
                \<lparr>user_id = 1, user_name = ''Ann'', user_email = ''ann@x.org'', user_age = Some 30\<rparr>],
        next_id = 3\<rparr>"
  from list_users_sorted [of Map.empty ?s] obtain us where
    a: "app GET [''users''] (Parsed Map.empty) ?s = (json_reply 200 (UserList us), ?s)"
    by blast
  have "app GET [''users''] (Parsed Map.empty) ?s =
      (json_reply 200 (UserList
         [\<lparr>user_id = 1, user_name = ''Ann'', user_email = ''ann@x.org'', user_age = Some 30\<rparr>,
          \<lparr>user_id = 2, user_name = ''Bob'', user_email = ''bob@x.org'', user_age = None\<rparr>]), ?s)"
    by code_simp
  with a have "us = [\<lparr>user_id = 1, user_name = ''Ann'', user_email = ''ann@x.org'', user_age = Some 30\<rparr>,
          \<lparr>user_id = 2, user_name = ''Bob'', user_email = ''bob@x.org'', user_age = None\<rparr>]"
    by (simp add: json_reply_def)
  with a show ?thesis by blast
qed

section \<open>Deleting twice\<close>

text \<open>
  C9. With a valid id of a user in the store, DELETE answers 200 with the message and
  the user as it was stored, and the store afterwards has no row of that id; the same
  DELETE once more is answered 404 with \<^verbatim>\<open>{error: "User not found"}\<close>.
\<close>

theorem delete_then_not_found:
  assumes "seg \<noteq> []" and "parseInt seg = Finite n" and "1 \<le> n"
    and "find (\<lambda>u. user_id u = n) (rows s) = Some u"
  shows "\<exists>s'. app DELETE [''users'', seg] (Parsed b) s =
             (json_reply 200
                (Deleted (''User '' @ user_name u @ '' deleted successfully'') u), s')
           \<and> rows s' = filter (\<lambda>v. user_id v \<noteq> n) (rows s)
           \<and> app DELETE [''users'', seg] (Parsed b) s' =
               (json_reply 404 (ErrorBody ''User not found''), s')"
proof -
  let ?s' = "s\<lparr>rows := filter (\<lambda>v. user_id v \<noteq> n) (rows s)\<rparr>"
  have m: "DELETE \<noteq> POST" by simp
  have first: "app DELETE [''users'', seg] (Parsed b) s =
      (json_reply 200 (Deleted (''User '' @ user_name u @ '' deleted successfully'') u), ?s')"
    using assms(2-4) app_id_route [OF assms(1) m, of b s]
    by (simp add: id_route_handlers_simps answer_def delete_user_def prisma_delete_def
          parsed_req_def)
  have "find (\<lambda>u. user_id u = n) (rows ?s') = None"
    by (simp add: find_filter_none)
  then have second: "app DELETE [''users'', seg] (Parsed b) ?s' =
      (json_reply 404 (ErrorBody ''User not found''), ?s')"
    using assms(2,3) app_id_route [OF assms(1) m, of b ?s']
    by (simp add: id_route_handlers_simps answer_def delete_user_def prisma_delete_def
          parsed_req_def prisma_known_error_def user_not_found_def)
  from first second show ?thesis by (intro exI [of _ ?s']) simp
qed

theorem delete_then_not_found_witness:
  "''1'' \<noteq> [] \<and> parseInt ''1'' = Finite 1 \<and> (1::int) \<le> 1 \<and>
   find (\<lambda>u. user_id u = 1)
     [\<lparr>user_id = 1, user_name = ''Ann'', user_email = ''ann@x.org'', user_age = None\<rparr>] =
     Some \<lparr>user_id = 1, user_name = ''Ann'', user_email = ''ann@x.org'', user_age = None\<rparr> \<and>
   (\<exists>s'. app DELETE [''users'', ''1''] (Parsed Map.empty)
       \<lparr>rows = [\<lparr>user_id = 1, user_name = ''Ann'', user_email = ''ann@x.org'', user_age = None\<rparr>],
        next_id = 2\<rparr> =
       (json_reply 200
          (Deleted ''User Ann deleted successfully''
             \<lparr>user_id = 1, user_name = ''Ann'', user_email = ''ann@x.org'', user_age = None\<rparr>), s')
     \<and> rows s' = []
     \<and> app DELETE [''users'', ''1''] (Parsed Map.empty) s' =
         (json_reply 404 (ErrorBody ''User not found''), s'))"
proof -
  let ?u = "\<lparr>user_id = 1, user_name = ''Ann'', user_email = ''ann@x.org'', user_age = None\<rparr>"
  have seg: "''1'' \<noteq> []" by simp
  have p: "parseInt ''1'' = Finite 1" by code_simp
  have n: "(1::int) \<le> 1" by simp
  have f: "find (\<lambda>u. user_id u = 1) (rows \<lparr>rows = [?u], next_id = 2\<rparr>) = Some ?u"
    by simp
  from delete_then_not_found [OF seg p n f, of Map.empty] p show ?thesis
    by simp
qed

end
